theory Spec2Isabelle
  imports Main "HOL-Library.AList"
begin

section \<open>The WebSocket wrapper of chromium-websocket-wrapper\<close>

text \<open>
  The source file holds two implementations of the wrapper. The first (lines 22-429)
  has two channels, \<open>messageChannel\<close> and \<open>imageChannel\<close>, and the response handler
  \<open>channelResponseReceived\<close>; the second (lines 451-679) builds the probe image in the
  constructor and has the response handler \<open>onResponseReceived\<close>. Both are embedded
  here over one state type. The browser is the environment: the native constructor
  \<open>window.WebSocket\<close>, \<open>encodeURIComponent\<close>, the page's own functions and the
  properties a native socket reports are fields of the record \<open>window\<close>.
\<close>

subsection \<open>JavaScript values\<close>

text \<open>
  The values a page can hand to the wrapper: the primitives, functions (a function of
  the page is a number, with the \<open>this\<close> it has been bound to, if any) and the event
  object made by \<open>new window.ErrorEvent(type)\<close>. Numbers are the integers; other objects
  are outside the model.
\<close>

datatype jsval =
    JUndefined
  | JNull
  | JBool bool
  | JNum int
  | JStr string
  | JFun nat "nat option"
  | JErrorEvent string

text \<open>The second constructor argument: absent, one protocol string or an array of them.
  The wrapper never inspects it.\<close>

datatype protocols = NoProtocols | Protocol string | ProtocolList "string list"

datatype exn =
    TypeError
  | URIError
  | DataCloneError
  | SecurityError
  | SyntaxError
  | PageError nat

fun truthy :: "jsval \<Rightarrow> bool" where
  "truthy JUndefined = False"
| "truthy JNull = False"
| "truthy (JBool b) = b"
| "truthy (JNum n) = (n \<noteq> 0)"
| "truthy (JStr s) = (s \<noteq> [])"
| "truthy (JFun f t) = True"
| "truthy (JErrorEvent t) = True"

text \<open>\<open>v instanceof Function\<close>\<close>

fun instanceof_Function :: "jsval \<Rightarrow> bool" where
  "instanceof_Function (JFun f t) = True"
| "instanceof_Function v = False"

text \<open>\<open>v.bind(wrapper)\<close> on a function: a function that is already bound keeps its
  \<open>this\<close>.\<close>

fun bind_this :: "jsval \<Rightarrow> nat \<Rightarrow> jsval" where
  "bind_this (JFun f None) w = JFun f (Some w)"
| "bind_this v w = v"

text \<open>Structured cloning, as \<open>postMessage\<close> applies it to the message: functions and
  event objects cannot be cloned.\<close>

fun cloneable :: "jsval \<Rightarrow> bool" where
  "cloneable (JFun f t) = False"
| "cloneable (JErrorEvent t) = False"
| "cloneable v = True"

subsection \<open>The state of the page\<close>

record listener =
  ev :: jsval
  cb :: jsval
  fl :: jsval

text \<open>The bag. \<open>properties\<close> is a plain object: an association list in insertion order,
  where writing an existing key keeps its place (\<open>AList.update\<close>).\<close>

record bag =
  args_url :: jsval
  args_protocols :: protocols
  listeners :: "listener list"
  properties :: "(string \<times> jsval) list"

text \<open>What the side table (\<open>map\<close>, \<open>toWrapped\<close>) holds for a wrapper: its bag, or the
  native socket (a number).\<close>

datatype entry = Bag bag | Real nat

text \<open>An image made by \<open>new Image()\<close>. A handler is the response function bound to
  \<open>(img, wrapper, flag)\<close>: the wrapper and the boolean.\<close>

record image =
  onload :: "(nat \<times> bool) option"
  onerror :: "(nat \<times> bool) option"
  src :: "string option"

text \<open>Everything the code does to the world outside its own variables, in the order it
  does it. \<open>NativeNew\<close> is a call of the native constructor, with the exception it threw
  or the socket it returned; the other calls into a native socket (an assignment,
  \<open>addEventListener\<close>, \<open>close\<close>, \<open>send\<close>) are recorded and taken to return.
  \<open>WeakMapSet\<close> records a call of \<open>map.set\<close>.\<close>

datatype effect =
    NativeNew jsval protocols "exn + nat"
  | NativeSet nat string jsval
  | NativeAddEventListener nat jsval jsval jsval
  | NativeClose nat jsval jsval
  | NativeSend nat jsval
  | Invoke jsval jsval
  | ConsoleError exn
  | ConsoleErrorString exn
  | WeakMapSet nat entry
  | ImageSrc nat string
  | WindowAddEventListener
  | PostMessage nat string jsval string

text \<open>
  The variables of the scripts (\<open>toWrapped\<close> is the side table, \<open>map\<close> in the first
  implementation) and what the browser holds: the images, the address each native
  socket was constructed with (\<open>socket_url\<close>), and the images whose load has been
  answered with its one \<open>load\<close> or \<open>error\<close> event (\<open>settled\<close>).
\<close>

record state =
  toWrapped :: "nat \<rightharpoonup> entry"
  images :: "nat \<rightharpoonup> image"
  next_id :: nat
  currentRequestId :: nat
  requestsMap :: "int \<rightharpoonup> nat"
  effects :: "effect list"
  socket_url :: "nat \<rightharpoonup> jsval"
  settled :: "nat list"

text \<open>
  The browser. \<open>Wrapped url protocols\<close> says whether the native constructor throws;
  \<open>call_page_function f\<close> whether function \<open>f\<close> of the page throws when it is called
  (what else a page function does is not modelled); \<open>native_url u\<close> is the \<open>url\<close> that
  a native socket reports when its constructor has returned for the address \<open>u\<close> (the
  address as the browser's parser writes it); \<open>native_get sock p\<close> is the value the
  native socket \<open>sock\<close> reports for any other property \<open>p\<close>.
\<close>

record window =
  location_protocol :: string
  location_origin :: string
  document_URL :: string
  Wrapped :: "jsval \<Rightarrow> protocols \<Rightarrow> exn option"
  encodeURIComponent :: "jsval \<Rightarrow> exn + string"
  call_page_function :: "nat \<Rightarrow> exn option"
  native_url :: "jsval \<Rightarrow> jsval"
  native_get :: "nat \<Rightarrow> string \<Rightarrow> jsval"

definition emit :: "effect list \<Rightarrow> state \<Rightarrow> state" where
  "emit es s = s\<lparr>effects := effects s @ es\<rparr>"

text \<open>Calling a value: a \<open>TypeError\<close> unless it is a function.\<close>

definition invoke :: "window \<Rightarrow> jsval \<Rightarrow> jsval \<Rightarrow> state \<Rightarrow> state \<times> exn option" where
  "invoke env f arg s =
     (case f of
        JFun n t \<Rightarrow> (emit [Invoke f arg] s, call_page_function env n)
      | _ \<Rightarrow> (s, Some TypeError))"

text \<open>Reading a property of a plain object: \<open>undefined\<close> when it is not there.\<close>

definition prop_read :: "(string \<times> jsval) list \<Rightarrow> string \<Rightarrow> jsval" where
  "prop_read ps p = (case map_of ps p of Some v \<Rightarrow> v | None \<Rightarrow> JUndefined)"

text \<open>\<open>new Wrapped(url, protocols)\<close> where it returns: a fresh socket.\<close>

definition new_socket :: "jsval \<Rightarrow> protocols \<Rightarrow> state \<Rightarrow> nat \<times> state" where
  "new_socket url ps s =
     (next_id s,
      emit [NativeNew url ps (Inr (next_id s))]
        (s\<lparr>next_id := Suc (next_id s), socket_url := (socket_url s)(next_id s \<mapsto> url)\<rparr>))"

text \<open>Reading a property of a native socket: its \<open>url\<close> is that of the address it was
  constructed with.\<close>

definition native_read :: "window \<Rightarrow> state \<Rightarrow> nat \<Rightarrow> string \<Rightarrow> jsval" where
  "native_read env s sock prop =
     (case (if prop = ''url'' then socket_url s sock else None) of
        Some u \<Rightarrow> native_url env u
      | None \<Rightarrow> native_get env sock prop)"

subsection \<open>Replay onto the real socket (lines 183-192 and 475-482)\<close>

fun replay_properties :: "nat \<Rightarrow> (string \<times> jsval) list \<Rightarrow> state \<Rightarrow> state" where
  "replay_properties wrapped [] s = s"
| "replay_properties wrapped ((p, v) # ps) s =
     replay_properties wrapped ps (emit [NativeSet wrapped p v] s)"

fun replay_listeners :: "nat \<Rightarrow> listener list \<Rightarrow> state \<Rightarrow> state" where
  "replay_listeners wrapped [] s = s"
| "replay_listeners wrapped (l # ls) s =
     replay_listeners wrapped ls (emit [NativeAddEventListener wrapped (ev l) (cb l) (fl l)] s)"

definition set_entry :: "nat \<Rightarrow> entry \<Rightarrow> state \<Rightarrow> state" where
  "set_entry wrapper e s = emit [WeakMapSet wrapper e] (s\<lparr>toWrapped := (toWrapped s)(wrapper \<mapsto> e)\<rparr>)"

definition replay :: "nat \<Rightarrow> nat \<Rightarrow> bag \<Rightarrow> state \<Rightarrow> state" where
  "replay wrapper wrapped b s =
     set_entry wrapper (Real wrapped)
       (replay_listeners wrapped (listeners b) (replay_properties wrapped (properties b) s))"

subsection \<open>First implementation: \<open>channelResponseReceived\<close> (lines 161-193)\<close>

text \<open>
  When the side table holds no bag for the wrapper, \<open>bag.properties.onerror\<close> throws a
  \<open>TypeError\<close> on the block path, and \<open>bag.args.url\<close> throws it inside the \<open>try\<close> on
  the allow path, where it is caught and logged.
\<close>

definition channelResponseReceived ::
  "window \<Rightarrow> nat \<Rightarrow> jsval \<Rightarrow> state \<Rightarrow> state \<times> exn option" where
  "channelResponseReceived env wrapper blockConnection s =
     (case toWrapped s wrapper of
        Some (Bag b) \<Rightarrow>
          if truthy blockConnection then
            (case (if truthy (prop_read (properties b) ''onerror'')
                   then invoke env (prop_read (properties b) ''onerror'') (JErrorEvent ''error'') s
                   else (s, None)) of
               (s1, Some ex) \<Rightarrow> (s1, Some ex)
             | (s1, None) \<Rightarrow>
                 (s1\<lparr>toWrapped := (toWrapped s1)(wrapper \<mapsto>
                        Bag (b\<lparr>properties := AList.update ''readyState'' (JNum 3) (properties b)\<rparr>))\<rparr>,
                  None))
          else
            (case Wrapped env (args_url b) (args_protocols b) of
               Some ex \<Rightarrow>
                 (emit [NativeNew (args_url b) (args_protocols b) (Inl ex), ConsoleError ex] s, None)
             | None \<Rightarrow>
                 (case new_socket (args_url b) (args_protocols b) s of
                    (wrapped, s1) \<Rightarrow> (replay wrapper wrapped b s1, None)))
      | _ \<Rightarrow>
          if truthy blockConnection then (s, Some TypeError)
          else (emit [ConsoleError TypeError] s, None))"

subsection \<open>Second implementation: \<open>onResponseReceived\<close> (lines 457-483)\<close>

text \<open>\<open>this\<close> is the image: its two handlers are cleared first.\<close>

definition clear_handlers :: "nat \<Rightarrow> state \<Rightarrow> state" where
  "clear_handlers img s =
     (case images s img of
        None \<Rightarrow> s
      | Some im \<Rightarrow> s\<lparr>images := (images s)(img \<mapsto> im\<lparr>onload := None, onerror := None\<rparr>)\<rparr>)"

definition onResponseReceived ::
  "window \<Rightarrow> nat \<Rightarrow> nat \<Rightarrow> bool \<Rightarrow> state \<Rightarrow> state \<times> exn option" where
  "onResponseReceived env img wrapper ok s0 =
     (let s = clear_handlers img s0 in
      case toWrapped s wrapper of
        Some (Bag b) \<Rightarrow>
          if \<not> ok then
            (if truthy (prop_read (properties b) ''onerror'')
             then invoke env (prop_read (properties b) ''onerror'') (JErrorEvent ''error'') s
             else (s, None))
          else
            (case Wrapped env (args_url b) (args_protocols b) of
               Some ex \<Rightarrow>
                 (emit [NativeNew (args_url b) (args_protocols b) (Inl ex), ConsoleErrorString ex] s,
                  None)
             | None \<Rightarrow>
                 (case new_socket (args_url b) (args_protocols b) s of
                    (wrapped, s1) \<Rightarrow> (replay wrapper wrapped b s1, None)))
      | _ \<Rightarrow>
          if \<not> ok then (s, Some TypeError)
          else (emit [ConsoleErrorString TypeError] s, None))"

subsection \<open>Property access (\<open>getWrappedProperty\<close>, \<open>setWrappedProperty\<close>)\<close>

text \<open>\<open>fallthruGet\<close> and \<open>fallthruSet\<close> of the second implementation (lines 487-513) are
  the same code as lines 208-245 under other names.\<close>

definition getWrappedProperty :: "window \<Rightarrow> nat \<Rightarrow> string \<Rightarrow> jsval \<Rightarrow> state \<Rightarrow> jsval" where
  "getWrappedProperty env wrapper prop defaultValue s =
     (case toWrapped s wrapper of
        None \<Rightarrow> defaultValue
      | Some (Real wrapped) \<Rightarrow> native_read env s wrapped prop
      | Some (Bag b) \<Rightarrow>
          (case map_of (properties b) prop of Some v \<Rightarrow> v | None \<Rightarrow> defaultValue))"

definition setWrappedProperty :: "nat \<Rightarrow> string \<Rightarrow> jsval \<Rightarrow> state \<Rightarrow> state" where
  "setWrappedProperty wrapper prop val s =
     (let v = (if instanceof_Function val then bind_this val wrapper else val) in
      case toWrapped s wrapper of
        None \<Rightarrow> s
      | Some (Real wrapped) \<Rightarrow> emit [NativeSet wrapped prop v] s
      | Some (Bag b) \<Rightarrow>
          s\<lparr>toWrapped := (toWrapped s)(wrapper \<mapsto>
               Bag (b\<lparr>properties := AList.update prop v (properties b)\<rparr>))\<rparr>)"

text \<open>The ten accessors that \<open>Object.defineProperties\<close> puts on a wrapper (lines 270-341
  and 526-597): each getter with its default; five setters write, five are empty.\<close>

definition accessor_default :: "string \<rightharpoonup> jsval" where
  "accessor_default = map_of
     [(''binaryType'', JStr ''blob''),
      (''bufferedAmount'', JNum 0),
      (''extensions'', JStr ''''),
      (''onclose'', JNull),
      (''onerror'', JNull),
      (''onmessage'', JNull),
      (''onopen'', JNull),
      (''protocol'', JStr ''''),
      (''readyState'', JNum 0),
      (''url'', JStr '''')]"

definition writable_accessors :: "string list" where
  "writable_accessors = [''binaryType'', ''onclose'', ''onerror'', ''onmessage'', ''onopen'']"

text \<open>Reading \<open>ws.prop\<close>: \<open>None\<close> for a name that is not one of the ten.\<close>

definition WebSocket_get :: "window \<Rightarrow> nat \<Rightarrow> string \<Rightarrow> state \<Rightarrow> jsval option" where
  "WebSocket_get env this prop s =
     (case accessor_default prop of
        None \<Rightarrow> None
      | Some d \<Rightarrow> Some (getWrappedProperty env this prop d s))"

text \<open>Writing \<open>ws.prop = v\<close>: the side table changes through the five setters only.\<close>

definition WebSocket_set :: "nat \<Rightarrow> string \<Rightarrow> jsval \<Rightarrow> state \<Rightarrow> state" where
  "WebSocket_set this prop v s =
     (if prop \<in> set writable_accessors then setWrappedProperty this prop v s else s)"

subsection \<open>The methods of the prototype (lines 363-416 and 614-666)\<close>

definition addEventListener :: "nat \<Rightarrow> jsval \<Rightarrow> jsval \<Rightarrow> jsval \<Rightarrow> state \<Rightarrow> state" where
  "addEventListener this e c f s =
     (if \<not> instanceof_Function c then s
      else
        case toWrapped s this of
          None \<Rightarrow> s
        | Some (Real wrapped) \<Rightarrow> emit [NativeAddEventListener wrapped e (bind_this c this) f] s
        | Some (Bag b) \<Rightarrow>
            s\<lparr>toWrapped := (toWrapped s)(this \<mapsto>
                 Bag (b\<lparr>listeners := listeners b @ [\<lparr>ev = e, cb = bind_this c this, fl = f\<rparr>]\<rparr>))\<rparr>)"

definition removeEventListener :: "nat \<Rightarrow> jsval \<Rightarrow> jsval \<Rightarrow> jsval \<Rightarrow> state \<Rightarrow> state" where
  "removeEventListener this e c f s = s"

text \<open>\<open>close\<close> and \<open>send\<close> reach the native socket once there is one; what the native
  call itself does is the browser's.\<close>

definition close :: "nat \<Rightarrow> jsval \<Rightarrow> jsval \<Rightarrow> state \<Rightarrow> state" where
  "close this code reason s =
     (case toWrapped s this of
        Some (Real wrapped) \<Rightarrow> emit [NativeClose wrapped code reason] s
      | _ \<Rightarrow> s)"

definition send :: "nat \<Rightarrow> jsval \<Rightarrow> state \<Rightarrow> state" where
  "send this d s =
     (case toWrapped s this of
        Some (Real wrapped) \<Rightarrow> emit [NativeSend wrapped d] s
      | _ \<Rightarrow> s)"

subsection \<open>The signal channel (\<open>messageChannel\<close>, lines 52-117)\<close>

definition DIRECTION_OUT :: string where
  "DIRECTION_OUT = ''to-page-script@websocket-blocker''"

definition DIRECTION_IN :: string where
  "DIRECTION_IN = ''from-page-script@websocket-blocker''"

text \<open>
  \<open>event.data\<close> of a message event, when there is one. The request id is an integer, as
  the channel sends it. The stored request is the wrapper; the stored callback is
  \<open>channelResponseReceived\<close>, the only one the wrapper passes (line 358).
\<close>

record message_data =
  direction :: jsval
  requestId :: int
  block :: jsval

text \<open>On the values of \<open>jsval\<close>, \<open>direction != DIRECTION_OUT\<close> is false for the string
  \<open>DIRECTION_OUT\<close> only: the tag is not numeric.\<close>

definition onMessageReceived ::
  "window \<Rightarrow> message_data option \<Rightarrow> state \<Rightarrow> state \<times> exn option" where
  "onMessageReceived env event_data s =
     (case event_data of
        None \<Rightarrow> (s, None)
      | Some d \<Rightarrow>
          if \<not> truthy (direction d) \<or> direction d \<noteq> JStr DIRECTION_OUT then (s, None)
          else
            (case requestsMap s (requestId d) of
               None \<Rightarrow> (s, None)
             | Some wrapper \<Rightarrow>
                 (case channelResponseReceived env wrapper (block d) s of
                    (s1, Some ex) \<Rightarrow> (s1, Some ex)
                  | (s1, None) \<Rightarrow>
                      (s1\<lparr>requestsMap := (requestsMap s1)(requestId d := None)\<rparr>, None))))"

definition messageChannel_sendMessage ::
  "window \<Rightarrow> jsval \<Rightarrow> nat \<Rightarrow> state \<Rightarrow> state \<times> exn option" where
  "messageChannel_sendMessage env url wrapper s =
     (let s1 = (if currentRequestId s = 0 then emit [WindowAddEventListener] s else s);
          rid = Suc (currentRequestId s1);
          s2 = s1\<lparr>currentRequestId := rid,
                  requestsMap := (requestsMap s1)(int rid \<mapsto> wrapper)\<rparr>
      in if cloneable url
         then (emit [PostMessage rid DIRECTION_IN url (document_URL env)] s2, None)
         else (s2, Some DataCloneError))"

subsection \<open>The image probe channel (\<open>imageChannel\<close>, lines 123-143)\<close>

definition ubofix :: string where
  "ubofix = ''f41665f3028c7fd10eecf573336216d3''"

definition probe_url :: "window \<Rightarrow> string \<Rightarrow> string" where
  "probe_url env encoded = location_origin env @ ''?url='' @ encoded @ ''&ubofix='' @ ubofix"

definition set_src :: "nat \<Rightarrow> string \<Rightarrow> state \<Rightarrow> state" where
  "set_src img u s =
     emit [ImageSrc img u]
       (case images s img of
          None \<Rightarrow> s
        | Some im \<Rightarrow> s\<lparr>images := (images s)(img \<mapsto> im\<lparr>src := Some u\<rparr>)\<rparr>)"

definition imageChannel_sendMessage ::
  "window \<Rightarrow> jsval \<Rightarrow> nat \<Rightarrow> state \<Rightarrow> state \<times> exn option" where
  "imageChannel_sendMessage env url wrapper s =
     (let img = next_id s;
          s1 = s\<lparr>next_id := Suc img,
                 images := (images s)(img \<mapsto>
                   \<lparr>onload = Some (wrapper, False), onerror = Some (wrapper, True), src = None\<rparr>)\<rparr>
      in case encodeURIComponent env url of
           Inl ex \<Rightarrow> (s1, Some ex)
         | Inr encoded \<Rightarrow> (set_src img (probe_url env encoded) s1, None))"

datatype channel = MessageChannel | ImageChannel

fun sendMessage :: "channel \<Rightarrow> window \<Rightarrow> jsval \<Rightarrow> nat \<Rightarrow> state \<Rightarrow> state \<times> exn option" where
  "sendMessage MessageChannel = messageChannel_sendMessage"
| "sendMessage ImageChannel = imageChannel_sendMessage"

subsection \<open>The constructors (lines 258-359 and 515-612)\<close>

text \<open>
  \<open>url.lastIndexOf('ws:', 0) === 0\<close>: on a string, whether it starts with \<open>ws:\<close>; the
  other values of \<open>jsval\<close> (\<open>undefined\<close>, \<open>null\<close>, a boolean, a number, a function, an
  event) have no method \<open>lastIndexOf\<close>, and the call throws a \<open>TypeError\<close>. An array
  or a \<open>String\<close> object has the method and is not a value of \<open>jsval\<close>: nothing is
  said here, or in any property below, about an address that is such an object. The
  test is reached on an \<open>https:\<close> page only.
\<close>

definition lastIndexOf_ws :: "jsval \<Rightarrow> exn + bool" where
  "lastIndexOf_ws url =
     (case url of JStr u \<Rightarrow> Inr (take 3 u = ''ws:'') | _ \<Rightarrow> Inl TypeError)"

definition precheck :: "window \<Rightarrow> jsval \<Rightarrow> protocols \<Rightarrow> state \<Rightarrow> state \<times> exn option" where
  "precheck env url ps s =
     (if location_protocol env = ''https:'' then
        (case lastIndexOf_ws url of
           Inl ex \<Rightarrow> (s, Some ex)
         | Inr False \<Rightarrow> (s, None)
         | Inr True \<Rightarrow>
             (case Wrapped env url ps of
                Some ex \<Rightarrow> (emit [NativeNew url ps (Inl ex)] s, Some ex)
              | None \<Rightarrow>
                  (case new_socket url ps s of
                     (ws, s1) \<Rightarrow> (emit [NativeClose ws JUndefined JUndefined] s1, None))))
      else (s, None))"

definition empty_bag :: "jsval \<Rightarrow> protocols \<Rightarrow> bag" where
  "empty_bag url ps = \<lparr>args_url = url, args_protocols = ps, listeners = [], properties = []\<rparr>"

text \<open>The first implementation, for the channel it is given (line 423).\<close>

definition WebSocket_A ::
  "channel \<Rightarrow> window \<Rightarrow> nat \<Rightarrow> jsval \<Rightarrow> protocols \<Rightarrow> state \<Rightarrow> state \<times> exn option" where
  "WebSocket_A ch env this url ps s =
     (case precheck env url ps s of
        (s1, Some ex) \<Rightarrow> (s1, Some ex)
      | (s1, None) \<Rightarrow> sendMessage ch env url this (set_entry this (Bag (empty_bag url ps)) s1))"

text \<open>The second implementation: the image gets its address first, then its handlers.\<close>

definition WebSocket_B ::
  "window \<Rightarrow> nat \<Rightarrow> jsval \<Rightarrow> protocols \<Rightarrow> state \<Rightarrow> state \<times> exn option" where
  "WebSocket_B env this url ps s =
     (case precheck env url ps s of
        (s1, Some ex) \<Rightarrow> (s1, Some ex)
      | (s1, None) \<Rightarrow>
          (let s2 = set_entry this (Bag (empty_bag url ps)) s1;
               img = next_id s2;
               s3 = s2\<lparr>next_id := Suc img,
                      images := (images s2)(img \<mapsto> \<lparr>onload = None, onerror = None, src = None\<rparr>)\<rparr>
           in case encodeURIComponent env url of
                Inl ex \<Rightarrow> (s3, Some ex)
              | Inr encoded \<Rightarrow>
                  (let s4 = set_src img (probe_url env encoded) s3
                   in (s4\<lparr>images := (images s4)(img \<mapsto>
                             \<lparr>onload = Some (this, True), onerror = Some (this, False),
                              src = Some (probe_url env encoded)\<rparr>)\<rparr>, None))))"

subsection \<open>The browser delivers the outcome of an image load\<close>

text \<open>The browser calls the handler the image holds for the outcome, if it holds one:
  the response function of the implementation, with the bound wrapper and boolean.\<close>

datatype load_outcome = LoadSuccess | LoadFailure

definition handler_for :: "image \<Rightarrow> load_outcome \<Rightarrow> (nat \<times> bool) option" where
  "handler_for im outcome = (case outcome of LoadSuccess \<Rightarrow> onload im | LoadFailure \<Rightarrow> onerror im)"

definition image_event_A :: "window \<Rightarrow> nat \<Rightarrow> load_outcome \<Rightarrow> state \<Rightarrow> state \<times> exn option" where
  "image_event_A env img outcome s =
     (case images s img of
        None \<Rightarrow> (s, None)
      | Some im \<Rightarrow>
          (case handler_for im outcome of
             None \<Rightarrow> (s, None)
           | Some (wrapper, flag) \<Rightarrow> channelResponseReceived env wrapper (JBool flag) s))"

definition image_event_B :: "window \<Rightarrow> nat \<Rightarrow> load_outcome \<Rightarrow> state \<Rightarrow> state \<times> exn option" where
  "image_event_B env img outcome s =
     (case images s img of
        None \<Rightarrow> (s, None)
      | Some im \<Rightarrow>
          (case handler_for im outcome of
             None \<Rightarrow> (s, None)
           | Some (wrapper, flag) \<Rightarrow> onResponseReceived env img wrapper flag s))"

subsection \<open>What a page and its browser can do\<close>

text \<open>
  The steps that change the state: the page constructs a wrapper (\<open>new\<close> supplies the
  object \<open>this\<close>), writes a property, calls a method; the browser delivers the outcome
  of an image load or a message. An exception a step throws ends that step; what the
  step had done by then stays done.
\<close>

text \<open>
  The browser answers the load of an image once: an event of an image is delivered
  when the image has been given an address and no event of it has been delivered.
\<close>

definition deliverable :: "state \<Rightarrow> nat \<Rightarrow> bool" where
  "deliverable s img =
     (img \<notin> set (settled s) \<and> (case images s img of Some im \<Rightarrow> src im \<noteq> None | None \<Rightarrow> False))"

definition settle :: "nat \<Rightarrow> state \<Rightarrow> state" where
  "settle img s = s\<lparr>settled := img # settled s\<rparr>"

datatype action =
    New_A channel nat jsval protocols
  | New_B nat jsval protocols
  | SetProperty nat string jsval
  | AddEventListener nat jsval jsval jsval
  | RemoveEventListener nat jsval jsval jsval
  | Send nat jsval
  | Close nat jsval jsval
  | ImageEvent_A nat load_outcome
  | ImageEvent_B nat load_outcome
  | MessageEvent "message_data option"

fun perform :: "window \<Rightarrow> action \<Rightarrow> state \<Rightarrow> state" where
  "perform env (New_A ch this url ps) s = fst (WebSocket_A ch env this url ps s)"
| "perform env (New_B this url ps) s = fst (WebSocket_B env this url ps s)"
| "perform env (SetProperty this p v) s = WebSocket_set this p v s"
| "perform env (AddEventListener this e c f) s = addEventListener this e c f s"
| "perform env (RemoveEventListener this e c f) s = removeEventListener this e c f s"
| "perform env (Send this d) s = send this d s"
| "perform env (Close this code reason) s = close this code reason s"
| "perform env (ImageEvent_A img outcome) s =
     (if deliverable s img then fst (image_event_A env img outcome (settle img s)) else s)"
| "perform env (ImageEvent_B img outcome) s =
     (if deliverable s img then fst (image_event_B env img outcome (settle img s)) else s)"
| "perform env (MessageEvent d) s = fst (onMessageReceived env d s)"

definition run :: "window \<Rightarrow> action list \<Rightarrow> state \<Rightarrow> state" where
  "run env acts s = fold (perform env) acts s"

text \<open>The calls a page makes on wrappers that exist: no construction, no response.\<close>

fun is_call :: "action \<Rightarrow> bool" where
  "is_call (SetProperty this p v) = True"
| "is_call (AddEventListener this e c f) = True"
| "is_call (RemoveEventListener this e c f) = True"
| "is_call (Send this d) = True"
| "is_call (Close this code reason) = True"
| "is_call a = False"

text \<open>The page before the script has done anything.\<close>

definition init :: state where
  "init = \<lparr>toWrapped = Map.empty, images = Map.empty, next_id = 0, currentRequestId = 0,
           requestsMap = Map.empty, effects = [], socket_url = Map.empty, settled = []\<rparr>"

text \<open>The effects a step added.\<close>

definition new_effects :: "state \<Rightarrow> state \<Rightarrow> effect list" where
  "new_effects s s' = drop (length (effects s)) (effects s')"

subsection \<open>The browser's URL parser\<close>

text \<open>
  The browser parses the address that is assigned to \<open>src\<close> of an image, and the one
  given to the native constructor, and works with what the parser writes back.
  \<open>parse_url\<close> is that parser on the addresses of one plain shape: printable ASCII
  without \<open>#\<close> and backslash; a scheme \<open>http\<close>, \<open>https\<close>, \<open>ws\<close> or \<open>wss\<close> and \<open>//\<close>; a
  host of lower-case letters, digits and dots whose labels are not empty and whose
  last label starts with a letter; possibly a port that is not the default one of the
  scheme; possibly a path of letters, digits and \<open>/ - _ ~\<close>; possibly a query. For such
  an address the parser keeps scheme, host and port, writes the empty path as \<open>/\<close>
  and keeps any other path, and in the query escapes the four characters
  \<open>" < >\<close> and the apostrophe. On any other address the answer here is \<open>None\<close>: the
  parser fails on it, or its shape is outside this model.
\<close>

definition hex_digit :: "nat \<Rightarrow> char" where
  "hex_digit n = ''0123456789ABCDEF'' ! (n mod 16)"

definition percent_byte :: "char \<Rightarrow> string" where
  "percent_byte c = [CHR ''%'', hex_digit (of_char c div 16), hex_digit (of_char c)]"

definition special_schemes :: "string list" where
  "special_schemes = [''http://'', ''https://'', ''ws://'', ''wss://'']"

definition split_scheme :: "string \<Rightarrow> (string \<times> string) option" where
  "split_scheme a =
     (case filter (\<lambda>p. take (length p) a = p) special_schemes of
        [] \<Rightarrow> None
      | p # ps \<Rightarrow> Some (p, drop (length p) a))"

definition default_port :: "string \<Rightarrow> string" where
  "default_port p = (if p = ''http://'' \<or> p = ''ws://'' then ''80'' else ''443'')"

definition lower_letter :: "char \<Rightarrow> bool" where
  "lower_letter c = (c \<in> set ''abcdefghijklmnopqrstuvwxyz'')"

definition letter :: "char \<Rightarrow> bool" where
  "letter c = (lower_letter c \<or> c \<in> set ''ABCDEFGHIJKLMNOPQRSTUVWXYZ'')"

definition digit :: "char \<Rightarrow> bool" where
  "digit c = (c \<in> set ''0123456789'')"

definition plain :: "char \<Rightarrow> bool" where
  "plain c = ((0x21::nat) \<le> of_char c \<and> of_char c \<le> (0x7E::nat) \<and> c \<noteq> CHR ''#'' \<and> c \<noteq> CHR 0x5C)"

text \<open>A host: its labels, between the dots, are not empty, and the last one starts with a
  letter (so the host is not read as an IPv4 address).\<close>

fun labels_ok :: "bool \<Rightarrow> string \<Rightarrow> bool" where
  "labels_ok at_start [] = False"
| "labels_ok at_start [c] = (if at_start then lower_letter c else lower_letter c \<or> digit c)"
| "labels_ok at_start (c # d # cs) =
     (if c = CHR ''.'' then \<not> at_start \<and> labels_ok True (d # cs)
      else (lower_letter c \<or> digit c) \<and>
           (if at_start \<and> digit c then CHR ''.'' \<in> set (d # cs) else True) \<and>
           labels_ok False (d # cs))"

definition port_ok :: "string \<Rightarrow> string \<Rightarrow> bool" where
  "port_ok p port =
     (case port of
        [] \<Rightarrow> True
      | c # ds \<Rightarrow> ds \<noteq> [] \<and> length ds \<le> 4 \<and> list_all digit ds \<and> hd ds \<noteq> CHR ''0''
                  \<and> ds \<noteq> default_port p)"

definition authority_ok :: "string \<Rightarrow> string \<Rightarrow> bool" where
  "authority_ok p auth =
     (labels_ok True (takeWhile (\<lambda>c. c \<noteq> CHR '':'') auth)
      \<and> port_ok p (dropWhile (\<lambda>c. c \<noteq> CHR '':'') auth))"

definition path_char :: "char \<Rightarrow> bool" where
  "path_char c = (letter c \<or> digit c \<or> c \<in> set ''/-_~'')"

definition query_escaped :: "char \<Rightarrow> bool" where
  "query_escaped c = (c = CHR 0x22 \<or> c = CHR ''<'' \<or> c = CHR ''>'' \<or> c = CHR 0x27)"

definition query_encode :: "string \<Rightarrow> string" where
  "query_encode q = concat (map (\<lambda>c. if query_escaped c then percent_byte c else [c]) q)"

definition parse_url :: "string \<Rightarrow> string option" where
  "parse_url a =
     (if \<not> list_all plain a then None
      else
        case split_scheme a of
          None \<Rightarrow> None
        | Some (p, r) \<Rightarrow>
            (let auth = takeWhile (\<lambda>c. c \<noteq> CHR ''/'' \<and> c \<noteq> CHR ''?'') r;
                 r1 = dropWhile (\<lambda>c. c \<noteq> CHR ''/'' \<and> c \<noteq> CHR ''?'') r;
                 path = takeWhile (\<lambda>c. c \<noteq> CHR ''?'') r1;
                 query = dropWhile (\<lambda>c. c \<noteq> CHR ''?'') r1
             in if authority_ok p auth \<and> list_all path_char path
                then Some (p @ auth @ (if path = [] then ''/'' else path) @ query_encode query)
                else None))"


subsection \<open>What \<open>encodeURIComponent\<close> writes\<close>

text \<open>
  \<open>encodeURIComponent\<close> leaves the letters, the digits and \<open>- _ . ! ~ * ' ( )\<close> as they
  are and writes every other byte as \<open>%\<close> and two upper-case hexadecimal digits: what
  it returns is made of the characters it leaves and of \<open>%\<close>.
\<close>

definition unreserved :: "char \<Rightarrow> bool" where
  "unreserved c = (letter c \<or> digit c \<or> c \<in> set ''-_.!~*()'' \<or> c = CHR 0x27)"


subsection \<open>An example page\<close>

text \<open>
  A page at \<open>example.com\<close> for evaluating the model: \<open>scheme\<close> is its protocol and
  \<open>ctor\<close> the behaviour of its native constructor. Its functions are all written
  \<open>function () {}\<close>, but function \<open>13\<close>, which throws 13. \<open>encodeURIComponent\<close> turns
  its argument into a string and escapes every byte that is not a letter, a digit or
  one of \<open>- _ . ! ~ * ' ( )\<close>. A native socket reports, for its \<open>url\<close>, what the parser
  writes for the address it was constructed with, and for the other properties the
  values of a socket that has just been constructed.
\<close>

definition utf8 :: "char \<Rightarrow> string" where
  "utf8 c =
     (if of_char c < (128::nat) then [c]
      else [char_of (192 + of_char c div 64 :: nat), char_of (128 + of_char c mod 64 :: nat)])"

definition percent_encode :: "string \<Rightarrow> string" where
  "percent_encode u =
     concat (map (\<lambda>c. if unreserved c then [c] else concat (map percent_byte (utf8 c))) u)"

fun decimal :: "nat \<Rightarrow> string" where
  "decimal n = (if n < 10 then [''0123456789'' ! n] else decimal (n div 10) @ [''0123456789'' ! (n mod 10)])"

fun example_toString :: "jsval \<Rightarrow> string" where
  "example_toString JUndefined = ''undefined''"
| "example_toString JNull = ''null''"
| "example_toString (JBool b) = (if b then ''true'' else ''false'')"
| "example_toString (JNum n) = (if n < 0 then CHR ''-'' # decimal (nat (- n)) else decimal (nat n))"
| "example_toString (JStr u) = u"
| "example_toString (JFun f None) = (if f = 13 then ''function () { throw 13; }'' else ''function () {}'')"
| "example_toString (JFun f (Some w)) = ''function () { [native code] }''"
| "example_toString (JErrorEvent t) = ''[object ErrorEvent]''"

definition example_page :: "string \<Rightarrow> (jsval \<Rightarrow> protocols \<Rightarrow> exn option) \<Rightarrow> window" where
  "example_page scheme ctor =
     \<lparr>location_protocol = scheme,
      location_origin = scheme @ ''//example.com'',
      document_URL = scheme @ ''//example.com/'',
      Wrapped = ctor,
      encodeURIComponent = (\<lambda>v. Inr (percent_encode (example_toString v))),
      call_page_function = (\<lambda>f. if f = 13 then Some (PageError 13) else None),
      native_url = (\<lambda>v. case parse_url (example_toString v) of Some a \<Rightarrow> JStr a | None \<Rightarrow> JUndefined),
      native_get = (\<lambda>sock p. case accessor_default p of Some d \<Rightarrow> d | None \<Rightarrow> JUndefined)\<rparr>"

text \<open>
  Two native constructors. The first parses the address, turned into a string, and
  refuses it with a \<open>SyntaxError\<close> when the parser does not answer, when the scheme
  is not \<open>ws\<close> or \<open>wss\<close>, or when the protocols are not distinct tokens. The second is
  that of a browser on a secure page: it refuses a \<open>ws:\<close> address that the first
  accepts, with a \<open>SecurityError\<close>.
\<close>

definition token_char :: "char \<Rightarrow> bool" where
  "token_char c = (letter c \<or> digit c \<or> c \<in> set ''!#$%&*+-.^_`|~'' \<or> c = CHR 0x27)"

definition protocols_ok :: "protocols \<Rightarrow> bool" where
  "protocols_ok ps =
     (case ps of
        NoProtocols \<Rightarrow> True
      | Protocol p \<Rightarrow> p \<noteq> [] \<and> list_all token_char p
      | ProtocolList l \<Rightarrow> distinct l \<and> list_all (\<lambda>p. p \<noteq> [] \<and> list_all token_char p) l)"

definition ws_ctor :: "jsval \<Rightarrow> protocols \<Rightarrow> exn option" where
  "ws_ctor url ps =
     (case parse_url (example_toString url) of
        None \<Rightarrow> Some SyntaxError
      | Some a \<Rightarrow>
          if (take 5 a = ''ws://'' \<or> take 6 a = ''wss://'') \<and> protocols_ok ps then None
          else Some SyntaxError)"

definition mixed_content_ctor :: "jsval \<Rightarrow> protocols \<Rightarrow> exn option" where
  "mixed_content_ctor url ps =
     (case ws_ctor url ps of
        Some ex \<Rightarrow> Some ex
      | None \<Rightarrow> if take 5 (example_toString url) = ''ws://'' then Some SecurityError else None)"

subsection \<open>Observations on a state\<close>

text \<open>Whether the side table holds a native socket for the wrapper; the constructor
  arguments of a wrapper that still has its bag; a buffered property of such a wrapper.\<close>

definition has_socket :: "state \<Rightarrow> nat \<Rightarrow> bool" where
  "has_socket s w = (case toWrapped s w of Some (Real sock) \<Rightarrow> True | _ \<Rightarrow> False)"

definition pending_args :: "state \<Rightarrow> nat \<Rightarrow> (jsval \<times> protocols) option" where
  "pending_args s w =
     (case toWrapped s w of Some (Bag b) \<Rightarrow> Some (args_url b, args_protocols b) | _ \<Rightarrow> None)"

definition buffered :: "state \<Rightarrow> nat \<Rightarrow> string \<Rightarrow> jsval option" where
  "buffered s w p = (case toWrapped s w of Some (Bag b) \<Rightarrow> map_of (properties b) p | _ \<Rightarrow> None)"

text \<open>No bag has a property \<open>url\<close>.\<close>

definition url_unwritten :: "state \<Rightarrow> bool" where
  "url_unwritten s = (\<forall>w b. toWrapped s w = Some (Bag b) \<longrightarrow> map_of (properties b) ''url'' = None)"

text \<open>
  A response that is still to come for a wrapper: an image that can still deliver an
  event and has a handler bound to the wrapper, or a request of the signal channel that
  is stored for the wrapper. \<open>dead s w\<close>: no response is to come for \<open>w\<close>;
  \<open>sole s w h\<close>: none but \<open>h\<close>.
\<close>

datatype handle = ImageHandle nat | RequestHandle int

definition refers :: "state \<Rightarrow> handle \<Rightarrow> nat \<Rightarrow> bool" where
  "refers s h w =
     (case h of
        ImageHandle i \<Rightarrow>
          deliverable s i \<and>
          (case images s i of
             None \<Rightarrow> False
           | Some im \<Rightarrow> map_option fst (onload im) = Some w \<or> map_option fst (onerror im) = Some w)
      | RequestHandle r \<Rightarrow> requestsMap s r = Some w)"

definition dead :: "state \<Rightarrow> nat \<Rightarrow> bool" where
  "dead s w = (\<forall>h. \<not> refers s h w)"

definition sole :: "state \<Rightarrow> nat \<Rightarrow> handle \<Rightarrow> bool" where
  "sole s w h = (\<forall>h'. refers s h' w \<longrightarrow> h' = h)"

text \<open>The step delivers the response \<open>h\<close>: an event of that image, or a reply with the tag
  of the channel for that request that allows the connection.\<close>

fun delivers :: "action \<Rightarrow> handle \<Rightarrow> bool" where
  "delivers (ImageEvent_A img outcome) h = (h = ImageHandle img)"
| "delivers (ImageEvent_B img outcome) h = (h = ImageHandle img)"
| "delivers (MessageEvent (Some d)) h =
     (h = RequestHandle (requestId d) \<and> direction d = JStr DIRECTION_OUT \<and> \<not> truthy (block d))"
| "delivers a h = False"

text \<open>The step is a response that allows the connection of the wrapper \<open>w\<close>: an event
  of an image that can still deliver one, for which the image holds a handler bound to
  \<open>w\<close> and to the boolean of the allow path (\<open>false\<close> in the first implementation,
  \<open>true\<close> in the second), or a reply with the tag of the channel, for a request that is
  stored for \<open>w\<close>, that does not block.\<close>

fun allows :: "state \<Rightarrow> nat \<Rightarrow> action \<Rightarrow> bool" where
  "allows s w (ImageEvent_A img outcome) =
     (deliverable s img \<and>
      (case images s img of None \<Rightarrow> False | Some im \<Rightarrow> handler_for im outcome = Some (w, False)))"
| "allows s w (ImageEvent_B img outcome) =
     (deliverable s img \<and>
      (case images s img of None \<Rightarrow> False | Some im \<Rightarrow> handler_for im outcome = Some (w, True)))"
| "allows s w (MessageEvent (Some d)) =
     (direction d = JStr DIRECTION_OUT \<and> requestsMap s (requestId d) = Some w \<and> \<not> truthy (block d))"
| "allows s w a = False"

text \<open>The step constructs a wrapper on the object \<open>w\<close>. An object that \<open>new\<close> supplies is
  a new one, so no later step constructs on the object of an earlier wrapper.\<close>

fun is_new_on :: "nat \<Rightarrow> action \<Rightarrow> bool" where
  "is_new_on w (New_A ch this url ps) = (this = w)"
| "is_new_on w (New_B this url ps) = (this = w)"
| "is_new_on w a = False"

text \<open>Effects by kind: a call of the native constructor; the first effect is such a call
  with the given arguments; no effect is.\<close>

fun is_NativeNew :: "effect \<Rightarrow> bool" where
  "is_NativeNew (NativeNew u p r) = True"
| "is_NativeNew e = False"

definition constructs :: "jsval \<Rightarrow> protocols \<Rightarrow> effect list \<Rightarrow> bool" where
  "constructs url ps es = (case es of NativeNew u p r # rest \<Rightarrow> u = url \<and> p = ps | _ \<Rightarrow> False)"

definition no_construction :: "effect list \<Rightarrow> bool" where
  "no_construction es = list_all (\<lambda>e. \<not> is_NativeNew e) es"

subsection \<open>Example states\<close>

text \<open>A wrapper of the first implementation with buffered properties and a listener,
  before any response.\<close>

definition example_pending :: state where
  "example_pending =
     run (example_page ''http:'' ws_ctor)
       [New_A ImageChannel 0 (JStr ''ws://example.com/socket'') NoProtocols,
        SetProperty 0 ''onopen'' (JFun 1 None),
        SetProperty 0 ''binaryType'' (JStr ''arraybuffer''),
        AddEventListener 0 (JStr ''message'') (JFun 2 None) (JBool False),
        SetProperty 0 ''onopen'' (JFun 3 None)] init"

text \<open>A wrapper for an address the native constructor refuses: it has a fragment.\<close>

definition example_bad_address :: state where
  "example_bad_address =
     run (example_page ''http:'' ws_ctor)
       [New_A ImageChannel 0 (JStr ''ws://example.com/socket#x'') NoProtocols,
        SetProperty 0 ''onopen'' (JFun 1 None)] init"

text \<open>A wrapper on the signal channel whose error handler returns, one whose error
  handler throws, and the reply that blocks request 1.\<close>

definition example_signal :: state where
  "example_signal =
     run (example_page ''http:'' ws_ctor)
       [New_A MessageChannel 0 (JStr ''ws://example.com/socket'') NoProtocols,
        SetProperty 0 ''onerror'' (JFun 1 None)] init"

definition example_throwing :: state where
  "example_throwing =
     run (example_page ''http:'' ws_ctor)
       [New_A MessageChannel 0 (JStr ''ws://example.com/socket'') NoProtocols,
        SetProperty 0 ''onerror'' (JFun 13 None)] init"

definition block_reply :: message_data where
  "block_reply = \<lparr>direction = JStr DIRECTION_OUT, requestId = 1, block = JBool True\<rparr>"

text \<open>A wrapper of the second implementation with an error handler, before the image
  has loaded or failed.\<close>

definition example_pending_B :: state where
  "example_pending_B =
     run (example_page ''http:'' ws_ctor)
       [New_B 0 (JStr ''ws://example.com/socket'') NoProtocols,
        SetProperty 0 ''onerror'' (JFun 1 None)] init"

section \<open>Properties\<close>

subsection \<open>What each operation leaves alone\<close>

lemmas model_defs =
  run_def WebSocket_A_def WebSocket_B_def precheck_def lastIndexOf_ws_def set_entry_def empty_bag_def
  imageChannel_sendMessage_def messageChannel_sendMessage_def set_src_def probe_url_def ubofix_def
  WebSocket_set_def writable_accessors_def setWrappedProperty_def addEventListener_def
  removeEventListener_def send_def close_def image_event_A_def image_event_B_def handler_for_def
  onMessageReceived_def channelResponseReceived_def onResponseReceived_def clear_handlers_def
  invoke_def prop_read_def new_socket_def replay_def emit_def init_def
  example_page_def percent_encode_def utf8_def unreserved_def
  hex_digit_def DIRECTION_IN_def DIRECTION_OUT_def WebSocket_get_def accessor_default_def
  getWrappedProperty_def new_effects_def native_read_def deliverable_def settle_def
  percent_byte_def letter_def lower_letter_def digit_def

lemmas parser_defs =
  parse_url_def split_scheme_def special_schemes_def default_port_def plain_def port_ok_def
  authority_ok_def path_char_def query_escaped_def query_encode_def percent_byte_def
  hex_digit_def letter_def lower_letter_def digit_def protocols_ok_def token_char_def

lemma emit_fields [simp]:
  "toWrapped (emit es s) = toWrapped s"
  "images (emit es s) = images s"
  "next_id (emit es s) = next_id s"
  "currentRequestId (emit es s) = currentRequestId s"
  "requestsMap (emit es s) = requestsMap s"
  "effects (emit es s) = effects s @ es"
  "socket_url (emit es s) = socket_url s"
  "settled (emit es s) = settled s"
  by (simp_all add: emit_def)

lemma replay_properties_effects:
  "effects (replay_properties sock ps s) = effects s @ map (\<lambda>(p, v). NativeSet sock p v) ps"
  by (induction ps arbitrary: s) auto

lemma replay_properties_fields [simp]:
  "toWrapped (replay_properties sock ps s) = toWrapped s"
  "images (replay_properties sock ps s) = images s"
  "next_id (replay_properties sock ps s) = next_id s"
  "currentRequestId (replay_properties sock ps s) = currentRequestId s"
  "requestsMap (replay_properties sock ps s) = requestsMap s"
  "socket_url (replay_properties sock ps s) = socket_url s"
  "settled (replay_properties sock ps s) = settled s"
  by (induction ps arbitrary: s; auto)+

lemma replay_listeners_effects:
  "effects (replay_listeners sock ls s) =
     effects s @ map (\<lambda>l. NativeAddEventListener sock (ev l) (cb l) (fl l)) ls"
  by (induction ls arbitrary: s) auto

lemma replay_listeners_fields [simp]:
  "toWrapped (replay_listeners sock ls s) = toWrapped s"
  "images (replay_listeners sock ls s) = images s"
  "next_id (replay_listeners sock ls s) = next_id s"
  "currentRequestId (replay_listeners sock ls s) = currentRequestId s"
  "requestsMap (replay_listeners sock ls s) = requestsMap s"
  "socket_url (replay_listeners sock ls s) = socket_url s"
  "settled (replay_listeners sock ls s) = settled s"
  by (induction ls arbitrary: s; auto)+

lemma replay_effects:
  "effects (replay w sock b s) =
     effects s @ map (\<lambda>(p, v). NativeSet sock p v) (properties b)
       @ map (\<lambda>l. NativeAddEventListener sock (ev l) (cb l) (fl l)) (listeners b)
       @ [WeakMapSet w (Real sock)]"
  by (simp add: replay_def set_entry_def replay_listeners_effects replay_properties_effects)

lemma replay_fields [simp]:
  "toWrapped (replay w sock b s) = (toWrapped s)(w \<mapsto> Real sock)"
  "images (replay w sock b s) = images s"
  "next_id (replay w sock b s) = next_id s"
  "currentRequestId (replay w sock b s) = currentRequestId s"
  "requestsMap (replay w sock b s) = requestsMap s"
  "socket_url (replay w sock b s) = socket_url s"
  "settled (replay w sock b s) = settled s"
  by (simp_all add: replay_def set_entry_def)

lemma clear_handlers_fields [simp]:
  "toWrapped (clear_handlers img s) = toWrapped s"
  "next_id (clear_handlers img s) = next_id s"
  "currentRequestId (clear_handlers img s) = currentRequestId s"
  "requestsMap (clear_handlers img s) = requestsMap s"
  "effects (clear_handlers img s) = effects s"
  "socket_url (clear_handlers img s) = socket_url s"
  "settled (clear_handlers img s) = settled s"
  by (simp_all add: clear_handlers_def split: option.splits)

lemma invoke_fields [simp]:
  "toWrapped (fst (invoke env f a s)) = toWrapped s"
  "images (fst (invoke env f a s)) = images s"
  "next_id (fst (invoke env f a s)) = next_id s"
  "requestsMap (fst (invoke env f a s)) = requestsMap s"
  "currentRequestId (fst (invoke env f a s)) = currentRequestId s"
  "socket_url (fst (invoke env f a s)) = socket_url s"
  "settled (fst (invoke env f a s)) = settled s"
  by (simp_all add: invoke_def split: jsval.splits)

lemma precheck_fields [simp]:
  "toWrapped (fst (precheck env u ps s)) = toWrapped s"
  "images (fst (precheck env u ps s)) = images s"
  "requestsMap (fst (precheck env u ps s)) = requestsMap s"
  "currentRequestId (fst (precheck env u ps s)) = currentRequestId s"
  "settled (fst (precheck env u ps s)) = settled s"
  by (auto simp: precheck_def new_socket_def split: sum.splits option.splits bool.splits)

lemma settle_fields [simp]:
  "toWrapped (settle img s) = toWrapped s"
  "images (settle img s) = images s"
  "next_id (settle img s) = next_id s"
  "currentRequestId (settle img s) = currentRequestId s"
  "requestsMap (settle img s) = requestsMap s"
  "effects (settle img s) = effects s"
  "socket_url (settle img s) = socket_url s"
  "settled (settle img s) = img # settled s"
  by (simp_all add: settle_def)

lemma channelResponseReceived_frame [simp]:
  "images (fst (channelResponseReceived env w blk s)) = images s"
  "settled (fst (channelResponseReceived env w blk s)) = settled s"
  "currentRequestId (fst (channelResponseReceived env w blk s)) = currentRequestId s"
  by (auto simp: channelResponseReceived_def new_socket_def invoke_def
      split: option.splits entry.splits prod.splits jsval.splits)

lemma onResponseReceived_frame [simp]:
  "settled (fst (onResponseReceived env img w ok s)) = settled s"
  "requestsMap (fst (onResponseReceived env img w ok s)) = requestsMap s"
  "currentRequestId (fst (onResponseReceived env img w ok s)) = currentRequestId s"
  "images (fst (onResponseReceived env img w ok s)) = images (clear_handlers img s)"
  by (auto simp: onResponseReceived_def Let_def new_socket_def invoke_def
      split: option.splits entry.splits prod.splits jsval.splits)

lemma channelResponseReceived_requestsMap [simp]:
  "requestsMap (fst (channelResponseReceived env w blk s)) = requestsMap s"
  by (auto simp: channelResponseReceived_def new_socket_def invoke_def
      split: option.splits entry.splits prod.splits jsval.splits)

lemma sendMessage_toWrapped [simp]:
  "toWrapped (fst (sendMessage ch env url w s)) = toWrapped s"
  by (cases ch)
     (auto simp: messageChannel_sendMessage_def imageChannel_sendMessage_def Let_def set_src_def
        split: sum.splits option.splits)

lemma sendMessage_throws:
  "(snd (sendMessage ch env url w s) = None) =
     (case ch of ImageChannel \<Rightarrow> \<not> isl (encodeURIComponent env url)
               | MessageChannel \<Rightarrow> cloneable url)"
  by (cases ch)
     (auto simp: messageChannel_sendMessage_def imageChannel_sendMessage_def Let_def
        split: sum.splits option.splits)

lemma precheck_throws:
  "(snd (precheck env (JStr u) ps s) = None) =
     (location_protocol env = ''https:'' \<and> take 3 u = ''ws:'' \<longrightarrow> Wrapped env (JStr u) ps = None)"
  by (auto simp: precheck_def lastIndexOf_ws_def new_socket_def
      split: sum.splits option.splits bool.splits)

subsection \<open>Calls of the page on a wrapper\<close>

text \<open>A call keeps the kind of every side table entry and the constructor arguments of
  every bag, writes none of the properties that have no setter, and touches no image.\<close>

lemma call_pending_args:
  "is_call a \<Longrightarrow> pending_args (perform env a s) w = pending_args s w"
  by (cases a)
     (auto simp: pending_args_def WebSocket_set_def setWrappedProperty_def Let_def
        addEventListener_def removeEventListener_def send_def close_def
        split: option.splits entry.splits)

lemma call_buffered:
  "is_call a \<Longrightarrow> p \<notin> set writable_accessors \<Longrightarrow> buffered (perform env a s) w p = buffered s w p"
  by (cases a)
     (auto simp: buffered_def WebSocket_set_def setWrappedProperty_def Let_def update_conv'
        addEventListener_def removeEventListener_def send_def close_def
        split: option.splits entry.splits)

lemma call_images: "is_call a \<Longrightarrow> images (perform env a s) = images s"
  by (cases a)
     (auto simp: WebSocket_set_def setWrappedProperty_def Let_def
        addEventListener_def removeEventListener_def send_def close_def
        split: option.splits entry.splits)

lemma call_handles:
  "is_call a \<Longrightarrow> requestsMap (perform env a s) = requestsMap s"
  "is_call a \<Longrightarrow> settled (perform env a s) = settled s"
  by (cases a;
      auto simp: WebSocket_set_def setWrappedProperty_def Let_def
        addEventListener_def removeEventListener_def send_def close_def
        split: option.splits entry.splits)+

lemma calls_pending_args:
  "list_all is_call acts \<Longrightarrow> pending_args (run env acts s) w = pending_args s w"
  unfolding run_def by (induction acts arbitrary: s) (auto simp: call_pending_args)

lemma calls_buffered:
  "list_all is_call acts \<Longrightarrow> p \<notin> set writable_accessors
     \<Longrightarrow> buffered (run env acts s) w p = buffered s w p"
  unfolding run_def by (induction acts arbitrary: s) (auto simp: call_buffered)

lemma calls_images: "list_all is_call acts \<Longrightarrow> images (run env acts s) = images s"
  unfolding run_def by (induction acts arbitrary: s) (auto simp: call_images)

lemma run_Cons: "run env (a # acts) s = run env acts (perform env a s)"
  by (simp add: run_def)

subsection \<open>No step writes \<open>url\<close> into a bag\<close>

lemma url_unwritten_emit [simp]: "url_unwritten (emit es s) = url_unwritten s"
  by (simp add: url_unwritten_def)

lemma url_unwritten_clear [simp]: "url_unwritten (clear_handlers i s) = url_unwritten s"
  by (simp add: url_unwritten_def)

lemma url_unwritten_other_fields [simp]:
  "url_unwritten (s\<lparr>images := x\<rparr>) = url_unwritten s"
  "url_unwritten (s\<lparr>next_id := n\<rparr>) = url_unwritten s"
  "url_unwritten (s\<lparr>requestsMap := r\<rparr>) = url_unwritten s"
  "url_unwritten (s\<lparr>currentRequestId := c\<rparr>) = url_unwritten s"
  "url_unwritten (s\<lparr>socket_url := u\<rparr>) = url_unwritten s"
  "url_unwritten (settle i s) = url_unwritten s"
  by (simp_all add: url_unwritten_def)

lemma url_unwritten_upd_Bag:
  "url_unwritten s \<Longrightarrow> map_of (properties b) ''url'' = None
     \<Longrightarrow> url_unwritten (s\<lparr>toWrapped := (toWrapped s)(w \<mapsto> Bag b)\<rparr>)"
  by (simp add: url_unwritten_def)

lemma url_unwritten_replay: "url_unwritten s \<Longrightarrow> url_unwritten (replay w k b s)"
  by (simp add: url_unwritten_def)

lemma url_unwritten_set_entry:
  "url_unwritten s \<Longrightarrow> url_unwritten (set_entry w (Bag (empty_bag u ps)) s)"
  by (simp add: set_entry_def empty_bag_def url_unwritten_upd_Bag)

lemma url_unwritten_channelResponseReceived:
  assumes "url_unwritten s"
  shows "url_unwritten (fst (channelResponseReceived env w blk s))"
proof (cases "toWrapped s w")
  case None
  then show ?thesis using assms by (simp add: channelResponseReceived_def)
next
  case (Some e)
  show ?thesis
  proof (cases e)
    case (Real k)
    then show ?thesis using Some assms by (simp add: channelResponseReceived_def)
  next
    case (Bag b)
    have u: "map_of (properties b) ''url'' = None"
      using assms Some Bag by (simp add: url_unwritten_def)
    have u': "map_of (AList.update ''readyState'' (JNum 3) (properties b)) ''url'' = None"
      using u by (simp add: update_conv')
    show ?thesis
      using Some Bag assms u'
      by (auto simp: channelResponseReceived_def new_socket_def url_unwritten_replay
            url_unwritten_def invoke_def
          split: option.splits prod.splits if_splits jsval.splits)
  qed
qed

lemma url_unwritten_onResponseReceived:
  assumes "url_unwritten s"
  shows "url_unwritten (fst (onResponseReceived env i w ok s))"
  using assms
  by (auto simp: onResponseReceived_def Let_def new_socket_def url_unwritten_replay invoke_def
      split: option.splits entry.splits jsval.splits)

lemma url_unwritten_setWrappedProperty:
  assumes "url_unwritten s" "p \<noteq> ''url''"
  shows "url_unwritten (setWrappedProperty w p v s)"
  using assms
  by (auto simp: setWrappedProperty_def Let_def url_unwritten_def update_conv'
      split: option.splits entry.splits)

lemma url_unwritten_sendMessage:
  "url_unwritten s \<Longrightarrow> url_unwritten (fst (sendMessage ch env u w s))"
  by (cases ch)
     (auto simp: messageChannel_sendMessage_def imageChannel_sendMessage_def Let_def set_src_def
        split: sum.splits option.splits)

lemma url_unwritten_precheck:
  "url_unwritten s \<Longrightarrow> url_unwritten (fst (precheck env u ps s))"
  by (auto simp: precheck_def new_socket_def split: sum.splits option.splits bool.splits)

lemma url_unwritten_perform:
  assumes "url_unwritten s"
  shows "url_unwritten (perform env a s)"
proof (cases a)
  case (New_A ch this u ps)
  then show ?thesis
    using assms url_unwritten_precheck [OF assms, of env u ps]
    by (auto simp: WebSocket_A_def url_unwritten_sendMessage url_unwritten_set_entry
        split: prod.splits option.splits)
next
  case (New_B this u ps)
  then show ?thesis
    using assms url_unwritten_precheck [OF assms, of env u ps]
    by (auto simp: WebSocket_B_def Let_def set_src_def url_unwritten_set_entry
        split: prod.splits option.splits sum.splits)
next
  case (SetProperty this p v)
  then show ?thesis
    using assms by (auto simp: WebSocket_set_def writable_accessors_def url_unwritten_setWrappedProperty)
next
  case (AddEventListener this e c f)
  then show ?thesis
    using assms by (auto simp: addEventListener_def url_unwritten_def split: option.splits entry.splits)
next
  case (ImageEvent_A i outcome)
  have "url_unwritten (settle i s)" using assms by simp
  then show ?thesis
    unfolding ImageEvent_A
    using assms by (auto simp: image_event_A_def url_unwritten_channelResponseReceived split: option.splits)
next
  case (ImageEvent_B i outcome)
  have "url_unwritten (settle i s)" using assms by simp
  then show ?thesis
    unfolding ImageEvent_B
    using assms by (auto simp: image_event_B_def url_unwritten_onResponseReceived split: option.splits)
next
  case (MessageEvent d)
  have *: "\<And>w blk. url_unwritten (fst (channelResponseReceived env w blk s))"
    using assms by (rule url_unwritten_channelResponseReceived)
  show ?thesis
    unfolding MessageEvent
    using assms by (auto simp: onMessageReceived_def split: option.splits prod.splits)
      (metis * fst_conv)+
qed (use assms in \<open>auto simp: removeEventListener_def send_def close_def split: option.splits entry.splits\<close>)

lemma url_unwritten_run: "url_unwritten s \<Longrightarrow> url_unwritten (run env acts s)"
  unfolding run_def by (induction acts arbitrary: s) (auto simp: url_unwritten_perform)

lemma url_unwritten_init: "url_unwritten init"
  by (simp add: url_unwritten_def init_def)

subsection \<open>The two response handlers, path by path\<close>

lemma allow_constructs_A:
  "pending_args t w = Some (u, ps)
   \<Longrightarrow> constructs u ps (new_effects t (fst (channelResponseReceived env w (JBool False) t)))"
  by (auto simp: pending_args_def channelResponseReceived_def new_effects_def constructs_def
        new_socket_def replay_effects
      split: option.splits entry.splits)

lemma allow_constructs_B:
  "pending_args t w = Some (u, ps)
   \<Longrightarrow> constructs u ps (new_effects t (fst (onResponseReceived env img w True t)))"
  by (auto simp: pending_args_def onResponseReceived_def Let_def new_effects_def constructs_def
        new_socket_def replay_effects
      split: option.splits entry.splits)

lemma block_no_construction_A:
  "no_construction (new_effects t (fst (channelResponseReceived env w (JBool True) t)))"
  by (auto simp: channelResponseReceived_def new_effects_def no_construction_def invoke_def
      split: option.splits entry.splits jsval.splits prod.splits)

lemma block_no_construction_B:
  "no_construction (new_effects t (fst (onResponseReceived env img w False t)))"
  by (auto simp: onResponseReceived_def Let_def new_effects_def no_construction_def invoke_def
      split: option.splits entry.splits jsval.splits prod.splits)

lemma block_keeps_bag_A:
  "pending_args (fst (channelResponseReceived env w (JBool True) t)) w' = pending_args t w'"
  by (auto simp: channelResponseReceived_def pending_args_def invoke_def
      split: option.splits entry.splits jsval.splits prod.splits)

lemma block_keeps_table_B:
  "toWrapped (fst (onResponseReceived env img w False t)) = toWrapped t"
  by (auto simp: onResponseReceived_def Let_def invoke_def
      split: option.splits entry.splits jsval.splits prod.splits)

lemma block_keeps_sockets_B:
  "socket_url (fst (onResponseReceived env img w False t)) = socket_url t"
  by (auto simp: onResponseReceived_def Let_def invoke_def
      split: option.splits entry.splits jsval.splits prod.splits)

lemma WebSocket_A_image_result:
  assumes "WebSocket_A ImageChannel env this url ps s = (sA, None)"
  shows "images sA (next_id (fst (precheck env url ps s))) =
           Some \<lparr>onload = Some (this, False), onerror = Some (this, True),
                 src = Some (probe_url env (projr (encodeURIComponent env url)))\<rparr>
       \<and> pending_args sA this = Some (url, ps)"
  using assms
  by (auto simp: WebSocket_A_def imageChannel_sendMessage_def Let_def set_src_def set_entry_def
        empty_bag_def pending_args_def
      split: prod.splits option.splits sum.splits)

lemma WebSocket_B_result:
  assumes "WebSocket_B env this url ps s = (sB, None)"
  shows "images sB (next_id (fst (precheck env url ps s))) =
           Some \<lparr>onload = Some (this, True), onerror = Some (this, False),
                 src = Some (probe_url env (projr (encodeURIComponent env url)))\<rparr>
       \<and> pending_args sB this = Some (url, ps)"
  using assms
  by (auto simp: WebSocket_B_def Let_def set_src_def set_entry_def
        empty_bag_def pending_args_def
      split: prod.splits option.splits sum.splits)

subsection \<open>The example states, evaluated\<close>

text \<open>The two native constructors and the parser, on the addresses of the examples.\<close>

lemma ws_ctor_examples [simp]:
  "ws_ctor (JStr ''ws://example.com/socket'') NoProtocols = None"
  "ws_ctor (JStr ''wss://example.com/socket'') NoProtocols = None"
  "ws_ctor (JStr ''ws://insecure.example/x'') NoProtocols = None"
  "ws_ctor (JStr ''ws://example.com/socket#x'') NoProtocols = Some SyntaxError"
  by code_simp+

lemma mixed_content_ctor_examples [simp]:
  "mixed_content_ctor (JStr ''ws://example.com/socket'') NoProtocols = Some SecurityError"
  "mixed_content_ctor (JStr ''ws://insecure.example/x'') NoProtocols = Some SecurityError"
  "mixed_content_ctor (JStr ''wss://example.com/socket'') NoProtocols = None"
  by code_simp+

lemma parse_url_examples [simp]:
  "parse_url ''ws://example.com/socket'' = Some ''ws://example.com/socket''"
  "parse_url ''wss://example.com/socket'' = Some ''wss://example.com/socket''"
  by code_simp+

lemma example_pending_entry:
  "toWrapped example_pending 0 = Some (Bag
     \<lparr>args_url = JStr ''ws://example.com/socket'', args_protocols = NoProtocols,
      listeners = [\<lparr>ev = JStr ''message'', cb = JFun 2 (Some 0), fl = JBool False\<rparr>],
      properties = [(''onopen'', JFun 3 (Some 0)), (''binaryType'', JStr ''arraybuffer'')]\<rparr>)"
  by (simp add: example_pending_def model_defs)

lemma example_pending_next_id: "next_id example_pending = 1"
  by (simp add: example_pending_def model_defs)

lemma example_bad_address_entry:
  "toWrapped example_bad_address 0 = Some (Bag
     \<lparr>args_url = JStr ''ws://example.com/socket#x'', args_protocols = NoProtocols,
      listeners = [], properties = [(''onopen'', JFun 1 (Some 0))]\<rparr>)"
  by (simp add: example_bad_address_def model_defs)

subsection \<open>The constructors and the events, field by field\<close>

lemma WebSocket_A_eq:
  "WebSocket_A ch env this url ps s =
     (if snd (precheck env url ps s) = None
      then sendMessage ch env url this
             (set_entry this (Bag (empty_bag url ps)) (fst (precheck env url ps s)))
      else precheck env url ps s)"
  by (cases "precheck env url ps s") (auto simp: WebSocket_A_def split: option.splits)

lemma WebSocket_B_eq:
  "WebSocket_B env this url ps s =
     (if snd (precheck env url ps s) = None
      then
        (let s2 = set_entry this (Bag (empty_bag url ps)) (fst (precheck env url ps s));
             img = next_id s2;
             s3 = s2\<lparr>next_id := Suc img,
                    images := (images s2)(img \<mapsto> \<lparr>onload = None, onerror = None, src = None\<rparr>)\<rparr>
         in case encodeURIComponent env url of
              Inl ex \<Rightarrow> (s3, Some ex)
            | Inr encoded \<Rightarrow>
                ((set_src img (probe_url env encoded) s3)\<lparr>images := (images s2)(img \<mapsto>
                     \<lparr>onload = Some (this, True), onerror = Some (this, False),
                      src = Some (probe_url env encoded)\<rparr>)\<rparr>, None))
      else precheck env url ps s)"
  by (cases "precheck env url ps s")
     (auto simp: WebSocket_B_def Let_def set_src_def split: option.splits sum.splits)

lemma set_entry_fields [simp]:
  "toWrapped (set_entry w e s) = (toWrapped s)(w \<mapsto> e)"
  "images (set_entry w e s) = images s"
  "next_id (set_entry w e s) = next_id s"
  "currentRequestId (set_entry w e s) = currentRequestId s"
  "requestsMap (set_entry w e s) = requestsMap s"
  "socket_url (set_entry w e s) = socket_url s"
  "settled (set_entry w e s) = settled s"
  by (simp_all add: set_entry_def)

lemma imageChannel_sendMessage_fields:
  "toWrapped (fst (imageChannel_sendMessage env url w s)) = toWrapped s"
  "requestsMap (fst (imageChannel_sendMessage env url w s)) = requestsMap s"
  "settled (fst (imageChannel_sendMessage env url w s)) = settled s"
  "images (fst (imageChannel_sendMessage env url w s)) =
     (images s)(next_id s \<mapsto>
        \<lparr>onload = Some (w, False), onerror = Some (w, True),
         src = (case encodeURIComponent env url of Inl ex \<Rightarrow> None
                | Inr encoded \<Rightarrow> Some (probe_url env encoded))\<rparr>)"
  by (auto simp: imageChannel_sendMessage_def Let_def set_src_def split: sum.splits)

lemma messageChannel_sendMessage_fields:
  "toWrapped (fst (messageChannel_sendMessage env url w s)) = toWrapped s"
  "images (fst (messageChannel_sendMessage env url w s)) = images s"
  "settled (fst (messageChannel_sendMessage env url w s)) = settled s"
  "requestsMap (fst (messageChannel_sendMessage env url w s)) =
     (requestsMap s)(int (Suc (currentRequestId s)) \<mapsto> w)"
  by (auto simp: messageChannel_sendMessage_def Let_def)

lemma WebSocket_B_fields:
  "toWrapped (fst (WebSocket_B env this url ps s)) =
     (if snd (precheck env url ps s) = None then (toWrapped s)(this \<mapsto> Bag (empty_bag url ps))
      else toWrapped s)"
  "requestsMap (fst (WebSocket_B env this url ps s)) = requestsMap s"
  "settled (fst (WebSocket_B env this url ps s)) = settled s"
  "images (fst (WebSocket_B env this url ps s)) =
     (if snd (precheck env url ps s) = None
      then (images s)(next_id (fst (precheck env url ps s)) \<mapsto>
             (case encodeURIComponent env url of
                Inl ex \<Rightarrow> \<lparr>onload = None, onerror = None, src = None\<rparr>
              | Inr encoded \<Rightarrow> \<lparr>onload = Some (this, True), onerror = Some (this, False),
                                src = Some (probe_url env encoded)\<rparr>))
      else images s)"
  by (auto simp: WebSocket_B_eq Let_def set_src_def split: sum.splits)

lemma image_event_A_fields [simp]:
  "images (fst (image_event_A env i outcome s)) = images s"
  "settled (fst (image_event_A env i outcome s)) = settled s"
  "requestsMap (fst (image_event_A env i outcome s)) = requestsMap s"
  by (auto simp: image_event_A_def split: option.splits)

lemma image_event_B_fields [simp]:
  "settled (fst (image_event_B env i outcome s)) = settled s"
  "requestsMap (fst (image_event_B env i outcome s)) = requestsMap s"
  by (auto simp: image_event_B_def split: option.splits)

lemma image_event_B_images:
  "images (fst (image_event_B env i outcome s)) = images s
   \<or> images (fst (image_event_B env i outcome s)) = images (clear_handlers i s)"
  by (auto simp: image_event_B_def split: option.splits)

lemma onMessageReceived_fields [simp]:
  "images (fst (onMessageReceived env d s)) = images s"
  "settled (fst (onMessageReceived env d s)) = settled s"
  by (auto simp: onMessageReceived_def split: option.splits prod.splits)
     (metis channelResponseReceived_frame(1) fst_conv, metis channelResponseReceived_frame(1) fst_conv,
      metis channelResponseReceived_frame(2) fst_conv, metis channelResponseReceived_frame(2) fst_conv)

lemma onMessageReceived_requestsMap:
  "requestsMap (fst (onMessageReceived env d s)) r = Some w \<Longrightarrow> requestsMap s r = Some w"
  by (auto simp: onMessageReceived_def split: option.splits prod.splits if_splits)
     (metis channelResponseReceived_requestsMap fst_conv)+

subsection \<open>The responses that are still to come for a wrapper\<close>

lemma channelResponseReceived_other:
  "w \<noteq> w' \<Longrightarrow> toWrapped (fst (channelResponseReceived env w' blk s)) w = toWrapped s w"
  by (auto simp: channelResponseReceived_def new_socket_def invoke_def
      split: option.splits entry.splits prod.splits jsval.splits)

lemma onResponseReceived_other:
  "w \<noteq> w' \<Longrightarrow> toWrapped (fst (onResponseReceived env img w' ok s)) w = toWrapped s w"
  by (auto simp: onResponseReceived_def Let_def new_socket_def invoke_def
      split: option.splits entry.splits prod.splits jsval.splits)

lemma allow_returns:
  "\<not> truthy blk \<Longrightarrow> snd (channelResponseReceived env w blk s) = None"
  by (auto simp: channelResponseReceived_def new_socket_def
      split: option.splits entry.splits prod.splits)

lemma refers_fields:
  assumes "images s' = images s" and "settled s' = settled s" and "requestsMap s' = requestsMap s"
  shows "refers s' h w = refers s h w"
  using assms by (cases h) (simp_all add: refers_def deliverable_def)

lemma refers_clear: "refers (clear_handlers i s) h w \<Longrightarrow> refers s h w"
  by (cases h)
     (auto simp: refers_def deliverable_def clear_handlers_def split: option.splits if_splits)

lemma refers_settle: "refers (settle i s) h w \<Longrightarrow> refers s h w"
  by (cases h) (auto simp: refers_def deliverable_def split: option.splits)

lemma precheck_handles [simp]:
  "refers (fst (precheck env url ps s)) h w = refers s h w"
  by (rule refers_fields) simp_all

lemma set_entry_handles [simp]:
  "refers (set_entry this e s) h w = refers s h w"
  by (rule refers_fields) simp_all

lemma sendMessage_handles:
  assumes "this \<noteq> w" and "refers (fst (sendMessage ch env url this s)) h w"
  shows "refers s h w"
proof (cases ch)
  case MessageChannel
  with assms show ?thesis
    by (cases h)
       (auto simp: refers_def deliverable_def messageChannel_sendMessage_fields split: if_splits)
next
  case ImageChannel
  with assms show ?thesis
    by (cases h)
       (auto simp: refers_def deliverable_def imageChannel_sendMessage_fields split: if_splits)
qed

lemma WebSocket_A_handles:
  assumes "this \<noteq> w" and "refers (fst (WebSocket_A ch env this url ps s)) h w"
  shows "refers s h w"
proof (cases "snd (precheck env url ps s) = None")
  case True
  with assms(2) have "refers (fst (sendMessage ch env url this
      (set_entry this (Bag (empty_bag url ps)) (fst (precheck env url ps s))))) h w"
    by (simp add: WebSocket_A_eq)
  from sendMessage_handles [OF assms(1) this] show ?thesis by simp
next
  case False
  with assms(2) show ?thesis by (simp add: WebSocket_A_eq)
qed

lemma WebSocket_B_handles:
  assumes "this \<noteq> w" and "refers (fst (WebSocket_B env this url ps s)) h w"
  shows "refers s h w"
  using assms
  by (cases h)
     (auto simp: refers_def deliverable_def WebSocket_B_fields split: if_splits sum.splits)

lemma call_refers: "is_call a \<Longrightarrow> refers (perform env a s) h w = refers s h w"
  by (rule refers_fields) (simp_all add: call_images call_handles)

text \<open>No step but a construction on the object of the wrapper adds a response to come
  for it.\<close>

lemma perform_handles:
  assumes "\<not> is_new_on w a" and "refers (perform env a s) h w"
  shows "refers s h w"
proof (cases a)
  case (New_A ch this url ps)
  with assms WebSocket_A_handles show ?thesis by auto
next
  case (New_B this url ps)
  with assms WebSocket_B_handles show ?thesis by auto
next
  case (ImageEvent_A i outcome)
  show ?thesis
  proof (cases "deliverable s i")
    case True
    with assms(2) ImageEvent_A have "refers (fst (image_event_A env i outcome (settle i s))) h w"
      by simp
    then have "refers (settle i s) h w"
      by (subst (asm) refers_fields [of _ "settle i s"]) simp_all
    then show ?thesis by (rule refers_settle)
  next
    case False
    with assms(2) ImageEvent_A show ?thesis by simp
  qed
next
  case (ImageEvent_B i outcome)
  show ?thesis
  proof (cases "deliverable s i")
    case True
    let ?t = "fst (image_event_B env i outcome (settle i s))"
    from True assms(2) ImageEvent_B have r: "refers ?t h w" by simp
    from image_event_B_images [of env i outcome "settle i s"]
    have "refers (settle i s) h w"
    proof
      assume "images ?t = images (settle i s)"
      with r show ?thesis by (subst (asm) refers_fields [of _ "settle i s"]) simp_all
    next
      assume "images ?t = images (clear_handlers i (settle i s))"
      with r have "refers (clear_handlers i (settle i s)) h w"
        by (subst (asm) refers_fields [of _ "clear_handlers i (settle i s)"]) simp_all
      then show ?thesis by (rule refers_clear)
    qed
    then show ?thesis by (rule refers_settle)
  next
    case False
    with assms(2) ImageEvent_B show ?thesis by simp
  qed
next
  case (MessageEvent d)
  with assms(2) show ?thesis
    by (cases h) (auto simp: refers_def deliverable_def dest: onMessageReceived_requestsMap)
qed (use assms call_refers [of a env s h w] in auto)

lemma run_handles:
  "list_all (\<lambda>a. \<not> is_new_on w a) acts \<Longrightarrow> refers (run env acts s) h w \<Longrightarrow> refers s h w"
  unfolding run_def
  by (induction acts arbitrary: s) (auto dest: perform_handles)

lemma run_dead:
  "list_all (\<lambda>a. \<not> is_new_on w a) acts \<Longrightarrow> dead s w \<Longrightarrow> dead (run env acts s) w"
  unfolding dead_def by (blast dest: run_handles)

lemma run_sole:
  "list_all (\<lambda>a. \<not> is_new_on w a) acts \<Longrightarrow> sole s w h \<Longrightarrow> sole (run env acts s) w h"
  unfolding sole_def by (blast dest: run_handles)

lemma dead_init: "dead init w"
  by (auto simp: dead_def refers_def init_def deliverable_def split: handle.splits)

text \<open>A constructor leaves its wrapper with one response to come, the one it has asked
  for, when it had none before.\<close>

lemma sole_WebSocket_A_image:
  assumes "dead s this"
  shows "sole (fst (WebSocket_A ImageChannel env this url ps s)) this
           (ImageHandle (next_id (fst (precheck env url ps s))))"
  unfolding sole_def
proof (intro allI impI)
  fix h assume r: "refers (fst (WebSocket_A ImageChannel env this url ps s)) h this"
  have d: "\<not> refers s h this" using assms by (simp add: dead_def)
  show "h = ImageHandle (next_id (fst (precheck env url ps s)))"
    using r d
    by (cases h)
       (auto simp: WebSocket_A_eq refers_def deliverable_def imageChannel_sendMessage_fields
          split: if_splits)
qed

lemma sole_WebSocket_A_message:
  assumes "dead s this"
  shows "sole (fst (WebSocket_A MessageChannel env this url ps s)) this
           (RequestHandle (int (Suc (currentRequestId s))))"
  unfolding sole_def
proof (intro allI impI)
  fix h assume r: "refers (fst (WebSocket_A MessageChannel env this url ps s)) h this"
  have d: "\<not> refers s h this" using assms by (simp add: dead_def)
  show "h = RequestHandle (int (Suc (currentRequestId s)))"
    using r d
    by (cases h)
       (auto simp: WebSocket_A_eq refers_def deliverable_def messageChannel_sendMessage_fields
          split: if_splits)
qed

lemma sole_WebSocket_B:
  assumes "dead s this"
  shows "sole (fst (WebSocket_B env this url ps s)) this
           (ImageHandle (next_id (fst (precheck env url ps s))))"
  unfolding sole_def
proof (intro allI impI)
  fix h assume r: "refers (fst (WebSocket_B env this url ps s)) h this"
  have d: "\<not> refers s h this" using assms by (simp add: dead_def)
  show "h = ImageHandle (next_id (fst (precheck env url ps s)))"
    using r d
    by (cases h)
       (auto simp: refers_def deliverable_def WebSocket_B_fields split: if_splits sum.splits)
qed

text \<open>When the one response to come for a wrapper is delivered, none is left.\<close>

lemma delivered_dead:
  assumes "sole s w h" and "delivers r h"
  shows "dead (perform env r s) w"
  unfolding dead_def
proof (intro allI notI)
  fix h' assume r': "refers (perform env r s) h' w"
  have n: "\<not> is_new_on w r" using assms(2) by (cases r) auto
  have "refers s h' w" using perform_handles [OF n r'] .
  then have h': "h' = h" using assms(1) by (simp add: sole_def)
  show False
  proof (cases r)
    case (ImageEvent_A i outcome)
    with assms(2) r' h' show ?thesis
      by (auto simp: refers_def deliverable_def split: if_splits)
  next
    case (ImageEvent_B i outcome)
    with assms(2) r' h' show ?thesis
      by (auto simp: refers_def deliverable_def split: if_splits)
  next
    case (MessageEvent d)
    then obtain m where m: "d = Some m" using assms(2) by (cases d) auto
    have blk: "\<not> truthy (block m)" and dir: "direction m = JStr DIRECTION_OUT"
      and h: "h = RequestHandle (requestId m)"
      using assms(2) MessageEvent m by auto
    have "requestsMap (fst (onMessageReceived env (Some m) s)) (requestId m) = None"
    proof (cases "requestsMap s (requestId m)")
      case None
      then show ?thesis using dir by (simp add: onMessageReceived_def DIRECTION_OUT_def)
    next
      case (Some w')
      obtain s1 where "channelResponseReceived env w' (block m) s = (s1, None)"
        using allow_returns [OF blk, of env w' s]
        by (cases "channelResponseReceived env w' (block m) s") auto
      then show ?thesis
        using Some dir by (simp add: onMessageReceived_def DIRECTION_OUT_def)
    qed
    with r' h' h show ?thesis
      unfolding MessageEvent m by (simp add: refers_def)
  qed (use assms(2) in auto)
qed

text \<open>A step that is not a call of the page, on a wrapper for which no response is to
  come, leaves the side table entry of the wrapper as it is.\<close>

lemma handler_refers:
  assumes "deliverable s i" and "images s i = Some im" and "handler_for im outcome = Some (w', flag)"
  shows "refers s (ImageHandle i) w'"
  using assms by (cases outcome) (simp_all add: refers_def handler_for_def)

lemma dead_frame_step:
  assumes "dead s w" and "\<not> is_call a" and "\<not> is_new_on w a"
  shows "toWrapped (perform env a s) w = toWrapped s w"
proof (cases a)
  case (New_A ch this url ps)
  with assms(3) show ?thesis
    by (simp add: WebSocket_A_eq)
next
  case (New_B this url ps)
  with assms(3) show ?thesis
    by (simp add: WebSocket_B_fields)
next
  case (ImageEvent_A i outcome)
  have nr: "\<not> refers s (ImageHandle i) w" using assms(1) by (simp add: dead_def)
  show ?thesis
  proof (cases "deliverable s i")
    case False
    then show ?thesis unfolding ImageEvent_A by simp
  next
    case True
    then obtain im where im: "images s i = Some im"
      by (auto simp: deliverable_def split: option.splits)
    show ?thesis
    proof (cases "handler_for im outcome")
      case None
      then show ?thesis
        unfolding ImageEvent_A using True im by (simp add: image_event_A_def)
    next
      case (Some p)
      obtain w' flag where p: "p = (w', flag)" by (cases p)
      have "w \<noteq> w'" using handler_refers [OF True im Some [unfolded p]] nr by auto
      from channelResponseReceived_other [OF this, of env "JBool flag" "settle i s"]
      show ?thesis
        unfolding ImageEvent_A using True im Some p by (simp add: image_event_A_def)
    qed
  qed
next
  case (ImageEvent_B i outcome)
  have nr: "\<not> refers s (ImageHandle i) w" using assms(1) by (simp add: dead_def)
  show ?thesis
  proof (cases "deliverable s i")
    case False
    then show ?thesis unfolding ImageEvent_B by simp
  next
    case True
    then obtain im where im: "images s i = Some im"
      by (auto simp: deliverable_def split: option.splits)
    show ?thesis
    proof (cases "handler_for im outcome")
      case None
      then show ?thesis
        unfolding ImageEvent_B using True im by (simp add: image_event_B_def)
    next
      case (Some p)
      obtain w' flag where p: "p = (w', flag)" by (cases p)
      have "w \<noteq> w'" using handler_refers [OF True im Some [unfolded p]] nr by auto
      from onResponseReceived_other [OF this, of env i flag "settle i s"]
      show ?thesis
        unfolding ImageEvent_B using True im Some p by (simp add: image_event_B_def)
    qed
  qed
next
  case (MessageEvent d)
  have nr: "\<And>r. requestsMap s r \<noteq> Some w"
    using assms(1) by (auto simp: dead_def refers_def split: handle.splits)
  show ?thesis
  proof (cases d)
    case None
    then show ?thesis unfolding MessageEvent by (simp add: onMessageReceived_def)
  next
    case (Some m)
    note dm = this
    show ?thesis
    proof (cases "requestsMap s (requestId m)")
      case None
      then show ?thesis unfolding MessageEvent dm by (simp add: onMessageReceived_def)
    next
      case (Some w')
      then have "w \<noteq> w'" using nr by auto
      from channelResponseReceived_other [OF this, of env "block m" s]
      have o: "toWrapped (fst (channelResponseReceived env w' (block m) s)) w = toWrapped s w" .
      obtain s1 r1 where c: "channelResponseReceived env w' (block m) s = (s1, r1)"
        by (cases "channelResponseReceived env w' (block m) s")
      from o c have "toWrapped s1 w = toWrapped s w" by simp
      then show ?thesis
        unfolding MessageEvent dm
        using Some c by (cases r1) (simp_all add: onMessageReceived_def)
    qed
  qed
next
  case (SetProperty x1 x2 x3) with assms(2) show ?thesis by simp
next
  case (AddEventListener x1 x2 x3 x4) with assms(2) show ?thesis by simp
next
  case (RemoveEventListener x1 x2 x3 x4) with assms(2) show ?thesis by simp
next
  case (Send x1 x2) with assms(2) show ?thesis by simp
next
  case (Close x1 x2 x3) with assms(2) show ?thesis by simp
qed

text \<open>The entry that a call of the page leaves for a wrapper depends on the entry of
  that wrapper only.\<close>

lemma call_entry:
  assumes "is_call a" and "toWrapped s w = toWrapped s' w"
  shows "toWrapped (perform env a s) w = toWrapped (perform env a s') w"
proof (cases a)
  case (SetProperty this p v)
  show ?thesis
    unfolding SetProperty using assms(2)
    by (cases "this = w")
       (auto simp: WebSocket_set_def setWrappedProperty_def Let_def split: option.splits entry.splits)
next
  case (AddEventListener this e c f)
  show ?thesis
    unfolding AddEventListener using assms(2)
    by (cases "this = w")
       (auto simp: addEventListener_def split: option.splits entry.splits)
next
  case (RemoveEventListener this e c f)
  show ?thesis
    unfolding RemoveEventListener using assms(2) by (simp add: removeEventListener_def)
next
  case (Send this d)
  show ?thesis
    unfolding Send using assms(2) by (auto simp: send_def split: option.splits entry.splits)
next
  case (Close this c r)
  show ?thesis
    unfolding Close using assms(2) by (auto simp: close_def split: option.splits entry.splits)
qed (use assms(1) in auto)

lemma dead_frame:
  assumes "list_all (\<lambda>a. \<not> is_new_on w a) acts" and "dead s w" and "toWrapped s w = toWrapped s' w"
  shows "toWrapped (run env acts s) w = toWrapped (run env (filter is_call acts) s') w"
  using assms
proof (induction acts arbitrary: s s')
  case Nil
  then show ?case by (simp add: run_def)
next
  case (Cons a acts)
  have d: "dead (perform env a s) w"
    using run_dead [of w "[a]" s env] Cons.prems by (simp add: run_def)
  have rest: "list_all (\<lambda>a. \<not> is_new_on w a) acts" using Cons.prems by simp
  show ?case
  proof (cases "is_call a")
    case True
    have "toWrapped (perform env a s) w = toWrapped (perform env a s') w"
      by (rule call_entry [OF True Cons.prems(3)])
    from Cons.IH [OF rest d this] True show ?thesis
      by (simp add: run_Cons)
  next
    case False
    have n: "\<not> is_new_on w a" using Cons.prems(1) by simp
    have "toWrapped (perform env a s) w = toWrapped s' w"
      using dead_frame_step [OF Cons.prems(2) False n, of env] Cons.prems(3) by simp
    from Cons.IH [OF rest d this] False show ?thesis
      by (simp add: run_Cons)
  qed
qed

section \<open>The claims\<close>

subsection \<open>A blocked response and \<open>readyState\<close>\<close>

text \<open>
  The first implementation, on a blocked response for a wrapper whose buffered \<open>onerror\<close>
  is a function that returns: the handler is called once with an \<open>error\<close> event,
  \<open>readyState\<close> is written into the bag as 3, and after any later calls of the page the
  accessor still reads 3.
\<close>

lemma blocked_readyState_A:
  assumes "toWrapped s w = Some (Bag b)"
      and "truthy blockConnection"
      and "map_of (properties b) ''onerror'' = Some (JFun f t)"
      and "call_page_function env f = None"
      and "list_all is_call acts"
  shows "snd (channelResponseReceived env w blockConnection s) = None
       \<and> new_effects s (fst (channelResponseReceived env w blockConnection s))
           = [Invoke (JFun f t) (JErrorEvent ''error'')]
       \<and> WebSocket_get env w ''readyState''
           (run env acts (fst (channelResponseReceived env w blockConnection s))) = Some (JNum 3)"
proof -
  let ?s' = "fst (channelResponseReceived env w blockConnection s)"
  have r: "channelResponseReceived env w blockConnection s =
      ((emit [Invoke (JFun f t) (JErrorEvent ''error'')] s)
         \<lparr>toWrapped := (toWrapped s)(w \<mapsto>
             Bag (b\<lparr>properties := AList.update ''readyState'' (JNum 3) (properties b)\<rparr>))\<rparr>, None)"
    using assms(1-4) by (simp add: channelResponseReceived_def prop_read_def invoke_def)
  have "buffered ?s' w ''readyState'' = Some (JNum 3)"
    by (simp add: r buffered_def update_conv')
  then have "buffered (run env acts ?s') w ''readyState'' = Some (JNum 3)"
    using assms(5) by (simp add: calls_buffered writable_accessors_def)
  then have "WebSocket_get env w ''readyState'' (run env acts ?s') = Some (JNum 3)"
    by (auto simp: buffered_def WebSocket_get_def accessor_default_def getWrappedProperty_def
        split: option.splits entry.splits)
  then show ?thesis
    by (simp add: r new_effects_def)
qed

text \<open>The second implementation, on a blocked response, leaves the side table as it
  was: every accessor of every wrapper reads what it read before.\<close>

lemma blocked_accessors_unchanged_B:
  "WebSocket_get env w' p (fst (onResponseReceived env img w False s)) = WebSocket_get env w' p s"
  by (simp add: WebSocket_get_def getWrappedProperty_def native_read_def block_keeps_table_B
        block_keeps_sockets_B
      split: option.splits entry.splits)

text \<open>
  Claim C1. In the second implementation the claim fails. A wrapper is constructed for
  \<open>ws://example.com/socket\<close>, the page sets \<open>onerror\<close>, the probe image fails to load:
  the handler is called once with an \<open>error\<close> event, and \<open>readyState\<close> then reads 0
  (CONNECTING), not 3 (CLOSED).
\<close>

theorem blocked_readyState_B:
  "snd (image_event_B (example_page ''http:'' ws_ctor) 0 LoadFailure example_pending_B) = None
   \<and> new_effects example_pending_B
       (fst (image_event_B (example_page ''http:'' ws_ctor) 0 LoadFailure example_pending_B))
       = [Invoke (JFun 1 (Some 0)) (JErrorEvent ''error'')]
   \<and> WebSocket_get (example_page ''http:'' ws_ctor) 0 ''readyState''
       (fst (image_event_B (example_page ''http:'' ws_ctor) 0 LoadFailure example_pending_B))
       = Some (JNum 0)"
  by (simp add: example_pending_B_def model_defs)

subsection \<open>The order of the bag\<close>

text \<open>Writing a property that the bag does not hold yet puts it after the others;
  writing one it holds keeps its place. A listener is put after the others.\<close>

lemma setWrappedProperty_order:
  assumes "toWrapped s w = Some (Bag b)"
  shows "\<exists>b'. toWrapped (setWrappedProperty w p v s) w = Some (Bag b')
           \<and> map fst (properties b') =
               (if p \<in> set (map fst (properties b)) then map fst (properties b)
                else map fst (properties b) @ [p])
           \<and> map_of (properties b') p = Some (if instanceof_Function v then bind_this v w else v)
           \<and> listeners b' = listeners b"
  using assms by (simp add: setWrappedProperty_def Let_def update_keys update_conv')

lemma addEventListener_order:
  assumes "toWrapped s w = Some (Bag b)" and "instanceof_Function c"
  shows "toWrapped (addEventListener w e c f s) w =
           Some (Bag (b\<lparr>listeners := listeners b @ [\<lparr>ev = e, cb = bind_this c w, fl = f\<rparr>]\<rparr>))"
  using assms by (simp add: addEventListener_def)

subsection \<open>Replay on an allowed response\<close>

text \<open>
  Claim C2. When a wrapper still has its bag, the response allows the connection and the
  native constructor returns, then in both implementations the handler does exactly
  this, in this order: it constructs the socket from the buffered arguments, assigns
  every buffered property in the order of the bag, registers every buffered listener in
  the order of the bag, and sets the side table entry of the wrapper to the socket last.
\<close>

theorem replay_in_order:
  assumes "toWrapped s w = Some (Bag b)"
      and "Wrapped env (args_url b) (args_protocols b) = None"
      and "\<not> truthy blockConnection"
  shows "snd (channelResponseReceived env w blockConnection s) = None
       \<and> effects (fst (channelResponseReceived env w blockConnection s)) =
           effects s @ [NativeNew (args_url b) (args_protocols b) (Inr (next_id s))]
             @ map (\<lambda>(p, v). NativeSet (next_id s) p v) (properties b)
             @ map (\<lambda>l. NativeAddEventListener (next_id s) (ev l) (cb l) (fl l)) (listeners b)
             @ [WeakMapSet w (Real (next_id s))]
       \<and> toWrapped (fst (channelResponseReceived env w blockConnection s)) w = Some (Real (next_id s))
       \<and> snd (onResponseReceived env img w True s) = None
       \<and> effects (fst (onResponseReceived env img w True s)) =
           effects s @ [NativeNew (args_url b) (args_protocols b) (Inr (next_id s))]
             @ map (\<lambda>(p, v). NativeSet (next_id s) p v) (properties b)
             @ map (\<lambda>l. NativeAddEventListener (next_id s) (ev l) (cb l) (fl l)) (listeners b)
             @ [WeakMapSet w (Real (next_id s))]
       \<and> toWrapped (fst (onResponseReceived env img w True s)) w = Some (Real (next_id s))"
  using assms
  by (simp add: channelResponseReceived_def onResponseReceived_def new_socket_def replay_effects Let_def)

theorem replay_in_order_witness:
  "new_effects example_pending
     (fst (channelResponseReceived (example_page ''http:'' ws_ctor) 0 (JBool False) example_pending)) =
     [NativeNew (JStr ''ws://example.com/socket'') NoProtocols (Inr 1),
      NativeSet 1 ''onopen'' (JFun 3 (Some 0)),
      NativeSet 1 ''binaryType'' (JStr ''arraybuffer''),
      NativeAddEventListener 1 (JStr ''message'') (JFun 2 (Some 0)) (JBool False),
      WeakMapSet 0 (Real 1)]
   \<and> new_effects example_pending
     (fst (onResponseReceived (example_page ''http:'' ws_ctor) 0 0 True example_pending)) =
     [NativeNew (JStr ''ws://example.com/socket'') NoProtocols (Inr 1),
      NativeSet 1 ''onopen'' (JFun 3 (Some 0)),
      NativeSet 1 ''binaryType'' (JStr ''arraybuffer''),
      NativeAddEventListener 1 (JStr ''message'') (JFun 2 (Some 0)) (JBool False),
      WeakMapSet 0 (Real 1)]"
proof -
  have ctor: "Wrapped (example_page ''http:'' ws_ctor) (JStr ''ws://example.com/socket'') NoProtocols = None"
    by (simp add: example_page_def)
  show ?thesis
    using replay_in_order [OF example_pending_entry, of "example_page ''http:'' ws_ctor" "JBool False" 0]
      ctor
    by (simp add: new_effects_def example_pending_next_id)
qed

subsection \<open>Exceptions of the constructor\<close>

text \<open>
  Claim C3, as amended, for an address that is a string. The constructor of either
  implementation lets one exception out on purpose: on an \<open>https:\<close> page, for an
  address that starts with \<open>ws:\<close>, the exception that the native constructor throws
  in the pre-check (lines 262-264 and 520-522); the constructor has then done nothing
  but that call. In every other case the constructor returns and the side table holds
  the empty bag for the wrapper: on the signal channel always, on the image channel
  and in the second implementation when \<open>encodeURIComponent\<close> returns for the address.
  Nothing is said here of an address that is not a string, nor of an address for which
  \<open>encodeURIComponent\<close> throws.
\<close>

theorem constructor_exception_by_design:
  "(location_protocol env = ''https:'' \<and> take 3 u = ''ws:'' \<and> Wrapped env (JStr u) ps = Some ex \<longrightarrow>
      WebSocket_A ch env this (JStr u) ps s = (emit [NativeNew (JStr u) ps (Inl ex)] s, Some ex)
    \<and> WebSocket_B env this (JStr u) ps s = (emit [NativeNew (JStr u) ps (Inl ex)] s, Some ex))
   \<and> (\<not> (location_protocol env = ''https:'' \<and> take 3 u = ''ws:'' \<and> Wrapped env (JStr u) ps \<noteq> None) \<longrightarrow>
      snd (WebSocket_A MessageChannel env this (JStr u) ps s) = None
    \<and> toWrapped (fst (WebSocket_A MessageChannel env this (JStr u) ps s)) this
        = Some (Bag (empty_bag (JStr u) ps))
    \<and> (\<not> isl (encodeURIComponent env (JStr u)) \<longrightarrow>
         snd (WebSocket_A ImageChannel env this (JStr u) ps s) = None
       \<and> toWrapped (fst (WebSocket_A ImageChannel env this (JStr u) ps s)) this
           = Some (Bag (empty_bag (JStr u) ps))
       \<and> snd (WebSocket_B env this (JStr u) ps s) = None
       \<and> toWrapped (fst (WebSocket_B env this (JStr u) ps s)) this
           = Some (Bag (empty_bag (JStr u) ps))))"
proof (intro conjI impI)
  assume a: "location_protocol env = ''https:'' \<and> take 3 u = ''ws:'' \<and> Wrapped env (JStr u) ps = Some ex"
  then have p: "precheck env (JStr u) ps s = (emit [NativeNew (JStr u) ps (Inl ex)] s, Some ex)"
    by (simp add: precheck_def lastIndexOf_ws_def)
  show "WebSocket_A ch env this (JStr u) ps s = (emit [NativeNew (JStr u) ps (Inl ex)] s, Some ex)"
    by (simp add: WebSocket_A_def p)
  show "WebSocket_B env this (JStr u) ps s = (emit [NativeNew (JStr u) ps (Inl ex)] s, Some ex)"
    by (simp add: WebSocket_B_def p)
next
  assume n: "\<not> (location_protocol env = ''https:'' \<and> take 3 u = ''ws:'' \<and> Wrapped env (JStr u) ps \<noteq> None)"
  then have p: "snd (precheck env (JStr u) ps s) = None"
    by (auto simp: precheck_throws)
  show "snd (WebSocket_A MessageChannel env this (JStr u) ps s) = None"
    using p by (simp add: WebSocket_A_eq sendMessage_throws [of MessageChannel, simplified])
  show "toWrapped (fst (WebSocket_A MessageChannel env this (JStr u) ps s)) this
        = Some (Bag (empty_bag (JStr u) ps))"
    using p by (simp add: WebSocket_A_eq messageChannel_sendMessage_fields)
  assume e: "\<not> isl (encodeURIComponent env (JStr u))"
  show "snd (WebSocket_A ImageChannel env this (JStr u) ps s) = None"
    using p e by (simp add: WebSocket_A_eq sendMessage_throws [of ImageChannel, simplified])
  show "toWrapped (fst (WebSocket_A ImageChannel env this (JStr u) ps s)) this
           = Some (Bag (empty_bag (JStr u) ps))"
    using p by (simp add: WebSocket_A_eq imageChannel_sendMessage_fields)
  show "snd (WebSocket_B env this (JStr u) ps s) = None"
    using p e by (auto simp: WebSocket_B_eq Let_def split: sum.splits)
  show "toWrapped (fst (WebSocket_B env this (JStr u) ps s)) this
           = Some (Bag (empty_bag (JStr u) ps))"
    using p by (simp add: WebSocket_B_fields)
qed

theorem constructor_exception_by_design_witness:
  "WebSocket_A ImageChannel (example_page ''https:'' mixed_content_ctor) 0
       (JStr ''ws://insecure.example/x'') NoProtocols init
     = (emit [NativeNew (JStr ''ws://insecure.example/x'') NoProtocols (Inl SecurityError)] init,
        Some SecurityError)
   \<and> snd (WebSocket_A MessageChannel (example_page ''https:'' mixed_content_ctor) 0
          (JStr ''wss://example.com/socket'') NoProtocols init) = None
   \<and> snd (WebSocket_A ImageChannel (example_page ''https:'' mixed_content_ctor) 0
          (JStr ''wss://example.com/socket'') NoProtocols init) = None
   \<and> toWrapped (fst (WebSocket_A ImageChannel (example_page ''https:'' mixed_content_ctor) 0
          (JStr ''wss://example.com/socket'') NoProtocols init)) 0
       = Some (Bag (empty_bag (JStr ''wss://example.com/socket'') NoProtocols))
   \<and> snd (WebSocket_B (example_page ''https:'' mixed_content_ctor) 0
          (JStr ''wss://example.com/socket'') NoProtocols init) = None
   \<and> toWrapped (fst (WebSocket_B (example_page ''https:'' mixed_content_ctor) 0
          (JStr ''wss://example.com/socket'') NoProtocols init)) 0
       = Some (Bag (empty_bag (JStr ''wss://example.com/socket'') NoProtocols))"
  using constructor_exception_by_design [of "example_page ''https:'' mixed_content_ctor"
          "''ws://insecure.example/x''" NoProtocols SecurityError ImageChannel 0 init]
        constructor_exception_by_design [of "example_page ''https:'' mixed_content_ctor"
          "''wss://example.com/socket''" NoProtocols SecurityError ImageChannel 0 init]
  by (simp add: example_page_def)

text \<open>
  Claim C3 fails as it is stated. On an \<open>https:\<close> page whose browser refuses an insecure
  socket, \<open>new WebSocket('ws://example.com/socket')\<close> throws the \<open>SecurityError\<close> of the
  native constructor out of the wrapper's constructor, on either channel of the first
  implementation and in the second: the pre-check calls the native constructor outside
  any \<open>try\<close>, to trigger that exception.
\<close>

theorem constructor_exception_counterexample:
  "snd (WebSocket_A ImageChannel (example_page ''https:'' mixed_content_ctor) 0
          (JStr ''ws://example.com/socket'') NoProtocols init) = Some SecurityError
   \<and> snd (WebSocket_A MessageChannel (example_page ''https:'' mixed_content_ctor) 0
          (JStr ''ws://example.com/socket'') NoProtocols init) = Some SecurityError
   \<and> snd (WebSocket_B (example_page ''https:'' mixed_content_ctor) 0
          (JStr ''ws://example.com/socket'') NoProtocols init) = Some SecurityError"
  by (simp add: WebSocket_A_def WebSocket_B_def precheck_def lastIndexOf_ws_def example_page_def)

subsection \<open>The outcome of the image load\<close>

text \<open>
  Claim C4. Both implementations construct a wrapper on the image channel, the page
  makes any calls on wrappers, then the image loads or fails. The first implementation
  binds \<open>false\<close> to \<open>onload\<close> and \<open>true\<close> to \<open>onerror\<close>, the second the opposite. In both,
  a load makes the handler call the native constructor with the arguments of the
  wrapper's constructor; a failure makes no call of the native constructor and leaves
  the wrapper with its bag.
\<close>

theorem image_probe_same_decision:
  assumes A: "WebSocket_A ImageChannel env this url ps s = (sA, None)"
      and B: "WebSocket_B env this url ps s = (sB, None)"
      and calls: "list_all is_call acts"
      and img: "img = next_id (fst (precheck env url ps s))"
      and tA: "tA = run env acts sA"
      and tB: "tB = run env acts sB"
  shows "map_option onload (images tA img) = Some (Some (this, False))
       \<and> map_option onerror (images tA img) = Some (Some (this, True))
       \<and> map_option onload (images tB img) = Some (Some (this, True))
       \<and> map_option onerror (images tB img) = Some (Some (this, False))
       \<and> constructs url ps (new_effects tA (fst (image_event_A env img LoadSuccess tA)))
       \<and> constructs url ps (new_effects tB (fst (image_event_B env img LoadSuccess tB)))
       \<and> no_construction (new_effects tA (fst (image_event_A env img LoadFailure tA)))
       \<and> no_construction (new_effects tB (fst (image_event_B env img LoadFailure tB)))
       \<and> pending_args (fst (image_event_A env img LoadFailure tA)) this = Some (url, ps)
       \<and> pending_args (fst (image_event_B env img LoadFailure tB)) this = Some (url, ps)"
proof -
  note rA = WebSocket_A_image_result [OF A, folded img]
  note rB = WebSocket_B_result [OF B, folded img]
  have iA: "images tA img = Some \<lparr>onload = Some (this, False), onerror = Some (this, True),
                 src = Some (probe_url env (projr (encodeURIComponent env url)))\<rparr>"
    using rA calls by (simp add: tA calls_images)
  have iB: "images tB img = Some \<lparr>onload = Some (this, True), onerror = Some (this, False),
                 src = Some (probe_url env (projr (encodeURIComponent env url)))\<rparr>"
    using rB calls by (simp add: tB calls_images)
  have pA: "pending_args tA this = Some (url, ps)"
    using rA calls by (simp add: tA calls_pending_args)
  have pB: "pending_args tB this = Some (url, ps)"
    using rB calls by (simp add: tB calls_pending_args)
  have eA: "image_event_A env img LoadSuccess tA = channelResponseReceived env this (JBool False) tA"
           "image_event_A env img LoadFailure tA = channelResponseReceived env this (JBool True) tA"
    using iA by (simp_all add: image_event_A_def handler_for_def)
  have eB: "image_event_B env img LoadSuccess tB = onResponseReceived env img this True tB"
           "image_event_B env img LoadFailure tB = onResponseReceived env img this False tB"
    using iB by (simp_all add: image_event_B_def handler_for_def)
  have kB: "pending_args (fst (onResponseReceived env img this False tB)) this = Some (url, ps)"
    using pB by (simp add: pending_args_def block_keeps_table_B)
  show ?thesis
    unfolding eA eB
    using iA iB pA pB kB
    by (simp add: allow_constructs_A allow_constructs_B block_no_construction_A
          block_no_construction_B block_keeps_bag_A)
qed

theorem image_probe_same_decision_witness:
  "constructs (JStr ''ws://example.com/socket'') NoProtocols
     (new_effects example_pending
        (fst (image_event_A (example_page ''http:'' ws_ctor) 0 LoadSuccess example_pending)))
   \<and> no_construction
     (new_effects example_pending
        (fst (image_event_A (example_page ''http:'' ws_ctor) 0 LoadFailure example_pending)))
   \<and> constructs (JStr ''ws://example.com/socket'') NoProtocols
     (new_effects example_pending_B
        (fst (image_event_B (example_page ''http:'' ws_ctor) 0 LoadSuccess example_pending_B)))
   \<and> no_construction
     (new_effects example_pending_B
        (fst (image_event_B (example_page ''http:'' ws_ctor) 0 LoadFailure example_pending_B)))"
proof -
  let ?env = "example_page ''http:'' ws_ctor"
  let ?u = "JStr ''ws://example.com/socket''"
  let ?actsA = "[SetProperty 0 ''onopen'' (JFun 1 None),
        SetProperty 0 ''binaryType'' (JStr ''arraybuffer''),
        AddEventListener 0 (JStr ''message'') (JFun 2 None) (JBool False),
        SetProperty 0 ''onopen'' (JFun 3 None)]"
  have A: "WebSocket_A ImageChannel ?env 0 ?u NoProtocols init
             = (fst (WebSocket_A ImageChannel ?env 0 ?u NoProtocols init), None)"
    by (simp add: model_defs)
  have B: "WebSocket_B ?env 0 ?u NoProtocols init = (fst (WebSocket_B ?env 0 ?u NoProtocols init), None)"
    by (simp add: model_defs)
  have img: "0 = next_id (fst (precheck ?env ?u NoProtocols init))"
    by (simp add: model_defs)
  have tA: "example_pending = run ?env ?actsA (fst (WebSocket_A ImageChannel ?env 0 ?u NoProtocols init))"
    by (simp add: example_pending_def run_Cons)
  have tB: "example_pending_B =
      run ?env [SetProperty 0 ''onerror'' (JFun 1 None)] (fst (WebSocket_B ?env 0 ?u NoProtocols init))"
    by (simp add: example_pending_B_def run_Cons)
  have cA: "list_all is_call ?actsA" by simp
  have cB: "list_all is_call [SetProperty 0 ''onerror'' (JFun 1 None)]" by simp
  have sA: "run ?env ?actsA (fst (WebSocket_B ?env 0 ?u NoProtocols init))
          = run ?env ?actsA (fst (WebSocket_B ?env 0 ?u NoProtocols init))" by simp
  have sB: "run ?env [SetProperty 0 ''onerror'' (JFun 1 None)]
              (fst (WebSocket_A ImageChannel ?env 0 ?u NoProtocols init))
          = run ?env [SetProperty 0 ''onerror'' (JFun 1 None)]
              (fst (WebSocket_A ImageChannel ?env 0 ?u NoProtocols init))" by simp
  show ?thesis
    using image_probe_same_decision [OF A B cA img tA sA]
          image_probe_same_decision [OF A B cB img sB tB]
    by simp
qed

subsection \<open>A second reply on the signal channel\<close>

text \<open>
  \<open>onMessageReceived\<close> calls the stored callback (line 79) and deletes the request after
  it (line 80). When the callback returns, the request is gone from the map and a second
  reply with the same request id changes nothing: the callback is not called and the
  state, the map with it, is the same.
\<close>

lemma reply_deleted_after_return:
  assumes "direction d = JStr DIRECTION_OUT"
      and "requestsMap s (requestId d) = Some w"
      and "onMessageReceived env (Some d) s = (s1, None)"
      and "requestId d' = requestId d"
  shows "requestsMap s1 (requestId d) = None
       \<and> onMessageReceived env (Some d') s1 = (s1, None)"
proof -
  have "requestsMap s1 (requestId d) = None"
    using assms(1-3)
    by (auto simp: onMessageReceived_def DIRECTION_OUT_def split: prod.splits option.splits)
  then show ?thesis
    using assms(4) by (simp add: onMessageReceived_def)
qed

lemma reply_deleted_after_return_example:
  "requestsMap example_signal 1 = Some 0
   \<and> snd (onMessageReceived (example_page ''http:'' ws_ctor) (Some block_reply) example_signal) = None
   \<and> requestsMap
       (fst (onMessageReceived (example_page ''http:'' ws_ctor) (Some block_reply) example_signal)) 1
       = None
   \<and> onMessageReceived (example_page ''http:'' ws_ctor) (Some block_reply)
       (fst (onMessageReceived (example_page ''http:'' ws_ctor) (Some block_reply) example_signal))
       = (fst (onMessageReceived (example_page ''http:'' ws_ctor) (Some block_reply) example_signal),
          None)"
proof -
  let ?env = "example_page ''http:'' ws_ctor"
  have d: "direction block_reply = JStr DIRECTION_OUT"
    by (simp add: block_reply_def)
  have m: "requestsMap example_signal (requestId block_reply) = Some 0"
    by (simp add: example_signal_def block_reply_def model_defs)
  have r: "onMessageReceived ?env (Some block_reply) example_signal
             = (fst (onMessageReceived ?env (Some block_reply) example_signal), None)"
    by (simp add: example_signal_def block_reply_def model_defs)
  show ?thesis
    using reply_deleted_after_return [OF d m r, of block_reply] m r
    by (simp add: block_reply_def) (metis snd_conv)
qed

text \<open>
  Claim C5. The code breaks the claim when the callback throws. A wrapper is constructed
  on the signal channel (request 1) and the page sets an \<open>onerror\<close> that throws. The
  first reply that blocks request 1 reaches the page's handler through the callback; the
  exception leaves \<open>onMessageReceived\<close> before the \<open>delete\<close>, so request 1 is still in
  the map after a reply for it has been delivered; a second reply for request 1 calls
  the callback, and the page's handler, again.
\<close>

theorem second_reply_after_throw:
  "requestsMap example_throwing 1 = Some 0
   \<and> snd (onMessageReceived (example_page ''http:'' ws_ctor) (Some block_reply) example_throwing)
       = Some (PageError 13)
   \<and> new_effects example_throwing
        (fst (onMessageReceived (example_page ''http:'' ws_ctor) (Some block_reply) example_throwing))
       = [Invoke (JFun 13 (Some 0)) (JErrorEvent ''error'')]
   \<and> requestsMap (fst (onMessageReceived (example_page ''http:'' ws_ctor) (Some block_reply)
        example_throwing)) 1 = Some 0
   \<and> new_effects
        (fst (onMessageReceived (example_page ''http:'' ws_ctor) (Some block_reply) example_throwing))
        (fst (onMessageReceived (example_page ''http:'' ws_ctor) (Some block_reply)
           (fst (onMessageReceived (example_page ''http:'' ws_ctor) (Some block_reply) example_throwing))))
       = [Invoke (JFun 13 (Some 0)) (JErrorEvent ''error'')]"
  by (simp add: example_throwing_def block_reply_def model_defs)

text \<open>The two replies pass the guard of \<open>onMessageReceived\<close>: they carry the tag of the
  channel, and the id of the request that is stored for the wrapper before and after
  the first of them.\<close>

theorem second_reply_after_throw_witness:
  "truthy (direction block_reply) \<and> direction block_reply = JStr DIRECTION_OUT
   \<and> requestsMap example_throwing (requestId block_reply) = Some 0
   \<and> requestsMap (fst (onMessageReceived (example_page ''http:'' ws_ctor) (Some block_reply)
        example_throwing)) (requestId block_reply) = Some 0"
  using second_reply_after_throw by (simp add: block_reply_def DIRECTION_OUT_def)

subsection \<open>The native constructor throws on an allowed response\<close>

text \<open>A response that allows the connection of a wrapper is one of the responses that
  are to come for it.\<close>

lemma allows_delivers:
  assumes "allows s w r"
  shows "\<exists>h. delivers r h \<and> refers s h w"
proof (cases r)
  case (ImageEvent_A i outcome)
  with assms show ?thesis
    by (cases outcome) (auto simp: refers_def handler_for_def split: option.splits)
next
  case (ImageEvent_B i outcome)
  with assms show ?thesis
    by (cases outcome) (auto simp: refers_def handler_for_def split: option.splits)
next
  case (MessageEvent d)
  with assms show ?thesis
    by (cases d) (auto simp: refers_def)
qed (use assms in auto)

text \<open>The step of such a response, when the wrapper holds a bag and the native
  constructor throws for its arguments: the call of the constructor and the log are
  added to the effects, and the side table is as it was.\<close>

lemma failed_allow_step:
  assumes "toWrapped s w = Some (Bag b)"
      and "Wrapped env (args_url b) (args_protocols b) = Some ex"
      and "allows s w r"
  shows "toWrapped (perform env r s) = toWrapped s
       \<and> (new_effects s (perform env r s)
             = [NativeNew (args_url b) (args_protocols b) (Inl ex), ConsoleError ex]
          \<or> new_effects s (perform env r s)
             = [NativeNew (args_url b) (args_protocols b) (Inl ex), ConsoleErrorString ex])"
proof (cases r)
  case (ImageEvent_A i outcome)
  with assms(3) obtain im where d: "deliverable s i" and im: "images s i = Some im"
    and h: "handler_for im outcome = Some (w, False)"
    by (auto split: option.splits)
  have "channelResponseReceived env w (JBool False) (settle i s) =
          (emit [NativeNew (args_url b) (args_protocols b) (Inl ex), ConsoleError ex] (settle i s), None)"
    using assms(1,2) by (simp add: channelResponseReceived_def)
  then show ?thesis
    unfolding ImageEvent_A using d im h by (simp add: image_event_A_def new_effects_def)
next
  case (ImageEvent_B i outcome)
  with assms(3) obtain im where d: "deliverable s i" and im: "images s i = Some im"
    and h: "handler_for im outcome = Some (w, True)"
    by (auto split: option.splits)
  have "onResponseReceived env i w True (settle i s) =
          (emit [NativeNew (args_url b) (args_protocols b) (Inl ex), ConsoleErrorString ex]
             (clear_handlers i (settle i s)), None)"
    using assms(1,2) by (simp add: onResponseReceived_def Let_def)
  then show ?thesis
    unfolding ImageEvent_B using d im h by (simp add: image_event_B_def new_effects_def)
next
  case (MessageEvent d)
  with assms(3) obtain m where m: "d = Some m" and dir: "direction m = JStr DIRECTION_OUT"
    and rq: "requestsMap s (requestId m) = Some w" and blk: "\<not> truthy (block m)"
    by (cases d) auto
  have "channelResponseReceived env w (block m) s =
          (emit [NativeNew (args_url b) (args_protocols b) (Inl ex), ConsoleError ex] s, None)"
    using assms(1,2) blk by (simp add: channelResponseReceived_def)
  then show ?thesis
    unfolding MessageEvent m using dir rq
    by (simp add: onMessageReceived_def DIRECTION_OUT_def new_effects_def)
qed (use assms(3) in auto)

text \<open>
  Claim C6. When a wrapper still has its bag, the response allows the connection and the
  native constructor throws, then in both implementations the handler returns without
  an exception, and the state is the one it was given with the call of the constructor
  and the \<open>console.error\<close> added to the effects (the second implementation has also
  cleared the handlers of its image, as it does on every response): the side table is
  unchanged and nothing is replayed. After that, whatever calls the page makes, the
  wrapper keeps a bag with the same constructor arguments, and in the second
  implementation a further event of the image reaches no handler.

  The wrapper never resolves further. Let that response be the one that was to come
  for the wrapper, as it is after the constructor, and let \<open>later\<close> be any steps of the
  page and the browser after it (calls, constructions of other wrappers, events of any
  image, messages). Then no response is to come for the wrapper in the state they
  lead to, the side table entry of the wrapper is the one that the calls among those
  steps, alone and without the response, make of the bag, and it is a bag with the
  same constructor arguments.
\<close>

theorem construction_failure_inert:
  assumes "toWrapped s w = Some (Bag b)"
      and "Wrapped env (args_url b) (args_protocols b) = Some ex"
      and "\<not> truthy blockConnection"
  shows "channelResponseReceived env w blockConnection s =
           (emit [NativeNew (args_url b) (args_protocols b) (Inl ex), ConsoleError ex] s, None)
       \<and> onResponseReceived env img w True s =
           (emit [NativeNew (args_url b) (args_protocols b) (Inl ex), ConsoleErrorString ex]
              (clear_handlers img s), None)
       \<and> (list_all is_call acts \<longrightarrow>
            pending_args (run env acts (fst (channelResponseReceived env w blockConnection s))) w
              = Some (args_url b, args_protocols b)
          \<and> pending_args (run env acts (fst (onResponseReceived env img w True s))) w
              = Some (args_url b, args_protocols b)
          \<and> image_event_B env img outcome (run env acts (fst (onResponseReceived env img w True s)))
              = (run env acts (fst (onResponseReceived env img w True s)), None))
       \<and> (allows s w r \<and> sole s w h \<and> list_all (\<lambda>a. \<not> is_new_on w a) later \<longrightarrow>
            toWrapped (perform env r s) = toWrapped s
          \<and> (new_effects s (perform env r s)
                = [NativeNew (args_url b) (args_protocols b) (Inl ex), ConsoleError ex]
             \<or> new_effects s (perform env r s)
                = [NativeNew (args_url b) (args_protocols b) (Inl ex), ConsoleErrorString ex])
          \<and> dead (run env later (perform env r s)) w
          \<and> toWrapped (run env later (perform env r s)) w
              = toWrapped (run env (filter is_call later) s) w
          \<and> pending_args (run env later (perform env r s)) w
              = Some (args_url b, args_protocols b))"
proof -
  have A: "channelResponseReceived env w blockConnection s =
           (emit [NativeNew (args_url b) (args_protocols b) (Inl ex), ConsoleError ex] s, None)"
    using assms by (simp add: channelResponseReceived_def)
  have B: "onResponseReceived env img w True s =
           (emit [NativeNew (args_url b) (args_protocols b) (Inl ex), ConsoleErrorString ex]
              (clear_handlers img s), None)"
    using assms by (simp add: onResponseReceived_def Let_def)
  have pa: "pending_args (emit es s) w = Some (args_url b, args_protocols b)"
           "pending_args (emit es (clear_handlers img s)) w = Some (args_url b, args_protocols b)" for es
    using assms(1) by (simp_all add: pending_args_def)
  have ev: "image_event_B env img outcome t = (t, None)"
    if "images t = images (emit es (clear_handlers img s))" for t es
    using that
    by (cases outcome)
       (auto simp: image_event_B_def clear_handlers_def handler_for_def split: option.splits)
  have C: "list_all is_call acts \<longrightarrow>
            pending_args (run env acts (fst (channelResponseReceived env w blockConnection s))) w
              = Some (args_url b, args_protocols b)
          \<and> pending_args (run env acts (fst (onResponseReceived env img w True s))) w
              = Some (args_url b, args_protocols b)
          \<and> image_event_B env img outcome (run env acts (fst (onResponseReceived env img w True s)))
              = (run env acts (fst (onResponseReceived env img w True s)), None)"
    unfolding A B fst_conv
    by (auto simp: calls_pending_args pa intro!: ev calls_images)
  have D: "toWrapped (perform env r s) = toWrapped s
          \<and> (new_effects s (perform env r s)
                = [NativeNew (args_url b) (args_protocols b) (Inl ex), ConsoleError ex]
             \<or> new_effects s (perform env r s)
                = [NativeNew (args_url b) (args_protocols b) (Inl ex), ConsoleErrorString ex])
          \<and> dead (run env later (perform env r s)) w
          \<and> toWrapped (run env later (perform env r s)) w
              = toWrapped (run env (filter is_call later) s) w
          \<and> pending_args (run env later (perform env r s)) w
              = Some (args_url b, args_protocols b)"
    if al: "allows s w r" and so: "sole s w h" and la: "list_all (\<lambda>a. \<not> is_new_on w a) later"
  proof -
    note st = failed_allow_step [OF assms(1,2) al]
    from allows_delivers [OF al] obtain h' where dl: "delivers r h'" and rf: "refers s h' w"
      by blast
    from so rf have "h' = h" by (simp add: sole_def)
    with dl have "delivers r h" by simp
    from delivered_dead [OF so this] have d: "dead (perform env r s) w" .
    have e: "toWrapped (perform env r s) w = toWrapped s w" using st by simp
    have fr: "toWrapped (run env later (perform env r s)) w
                = toWrapped (run env (filter is_call later) s) w"
      by (rule dead_frame [OF la d e])
    have "pending_args (run env later (perform env r s)) w
            = pending_args (run env (filter is_call later) s) w"
      by (simp add: pending_args_def fr)
    also have "\<dots> = pending_args s w"
      by (rule calls_pending_args) (simp add: list_all_iff)
    also have "\<dots> = Some (args_url b, args_protocols b)"
      using assms(1) by (simp add: pending_args_def)
    finally have p: "pending_args (run env later (perform env r s)) w
            = Some (args_url b, args_protocols b)" .
    from st run_dead [OF la d] fr p show ?thesis by blast
  qed
  from A B C D show ?thesis by blast
qed

theorem construction_failure_inert_witness:
  "channelResponseReceived (example_page ''http:'' ws_ctor) 0 (JBool False) example_bad_address =
     (emit [NativeNew (JStr ''ws://example.com/socket#x'') NoProtocols (Inl SyntaxError),
            ConsoleError SyntaxError] example_bad_address, None)
   \<and> allows example_bad_address 0 (ImageEvent_A 0 LoadSuccess)
   \<and> sole example_bad_address 0 (ImageHandle 0)
   \<and> dead
       (run (example_page ''http:'' ws_ctor)
          [SetProperty 0 ''onmessage'' (JFun 2 None), ImageEvent_A 0 LoadFailure,
           ImageEvent_A 0 LoadSuccess, MessageEvent (Some block_reply), Send 0 (JStr ''hello'')]
          (perform (example_page ''http:'' ws_ctor) (ImageEvent_A 0 LoadSuccess) example_bad_address)) 0
   \<and> toWrapped
       (run (example_page ''http:'' ws_ctor)
          [SetProperty 0 ''onmessage'' (JFun 2 None), ImageEvent_A 0 LoadFailure,
           ImageEvent_A 0 LoadSuccess, MessageEvent (Some block_reply), Send 0 (JStr ''hello'')]
          (perform (example_page ''http:'' ws_ctor) (ImageEvent_A 0 LoadSuccess) example_bad_address)) 0
       = Some (Bag \<lparr>args_url = JStr ''ws://example.com/socket#x'', args_protocols = NoProtocols,
                     listeners = [],
                     properties = [(''onopen'', JFun 1 (Some 0)), (''onmessage'', JFun 2 (Some 0))]\<rparr>)"
proof -
  let ?env = "example_page ''http:'' ws_ctor"
  let ?u = "JStr ''ws://example.com/socket#x''"
  let ?b = "\<lparr>args_url = ?u, args_protocols = NoProtocols,
             listeners = [], properties = [(''onopen'', JFun 1 (Some 0))]\<rparr>"
  let ?later = "[SetProperty 0 ''onmessage'' (JFun 2 None), ImageEvent_A 0 LoadFailure,
           ImageEvent_A 0 LoadSuccess, MessageEvent (Some block_reply), Send 0 (JStr ''hello'')]"
  have ctor: "Wrapped ?env (args_url ?b) (args_protocols ?b) = Some SyntaxError"
    by (simp add: example_page_def)
  have blk: "\<not> truthy (JBool False)" by simp
  have al: "allows example_bad_address 0 (ImageEvent_A 0 LoadSuccess)"
    by (simp add: example_bad_address_def model_defs)
  have n: "next_id (fst (precheck ?env ?u NoProtocols init)) = 0"
    by (simp add: model_defs)
  have "sole (fst (WebSocket_A ImageChannel ?env 0 ?u NoProtocols init)) 0 (ImageHandle 0)"
    using sole_WebSocket_A_image [OF dead_init, of ?env 0 ?u NoProtocols] by (simp only: n)
  then have "sole (run ?env [SetProperty 0 ''onopen'' (JFun 1 None)]
                 (fst (WebSocket_A ImageChannel ?env 0 ?u NoProtocols init))) 0 (ImageHandle 0)"
    by (rule run_sole [rotated]) simp
  then have so: "sole example_bad_address 0 (ImageHandle 0)"
    by (simp add: example_bad_address_def run_Cons)
  have la: "list_all (\<lambda>a. \<not> is_new_on 0 a) ?later" by simp
  have calls: "toWrapped (run ?env (filter is_call ?later) example_bad_address) 0
       = Some (Bag \<lparr>args_url = ?u, args_protocols = NoProtocols, listeners = [],
                     properties = [(''onopen'', JFun 1 (Some 0)), (''onmessage'', JFun 2 (Some 0))]\<rparr>)"
    by (simp add: example_bad_address_def model_defs)
  from construction_failure_inert [OF example_bad_address_entry ctor blk,
        of 0 "[]" LoadSuccess "ImageEvent_A 0 LoadSuccess" "ImageHandle 0" ?later]
      al so la calls
  show ?thesis
    unfolding bag.simps by simp
qed

subsection \<open>An insecure address on a secure page\<close>

text \<open>
  Claim C7, as amended. On an \<open>https:\<close> page, for an address that is a string starting
  with \<open>ws:\<close>, the constructor of either implementation first calls the native
  constructor with the same address and protocols. If that call returns, the
  constructor closes the socket at once, stores the bag and dispatches the request,
  and does nothing else: on the signal channel it subscribes to the messages if this
  is the first request, posts the message and stores the request; on the image channel
  and in the second implementation, when \<open>encodeURIComponent\<close> returns for the
  address, it gives a new image the probe address and the two handlers. If that call
  throws, the exception leaves the constructor: nothing is closed, no bag is stored and
  no request is dispatched. Neither case depends on a response.
\<close>

theorem insecure_precheck:
  assumes "location_protocol env = ''https:''" and "take 3 u = ''ws:''"
  shows "(Wrapped env (JStr u) ps = None \<longrightarrow>
            snd (WebSocket_A MessageChannel env this (JStr u) ps s) = None
          \<and> new_effects s (fst (WebSocket_A MessageChannel env this (JStr u) ps s)) =
                [NativeNew (JStr u) ps (Inr (next_id s)),
                 NativeClose (next_id s) JUndefined JUndefined,
                 WeakMapSet this (Bag (empty_bag (JStr u) ps))]
                @ (if currentRequestId s = 0 then [WindowAddEventListener] else [])
                @ [PostMessage (Suc (currentRequestId s)) DIRECTION_IN (JStr u) (document_URL env)]
          \<and> requestsMap (fst (WebSocket_A MessageChannel env this (JStr u) ps s))
                (int (Suc (currentRequestId s))) = Some this
          \<and> (\<forall>encoded. encodeURIComponent env (JStr u) = Inr encoded \<longrightarrow>
                snd (WebSocket_A ImageChannel env this (JStr u) ps s) = None
              \<and> new_effects s (fst (WebSocket_A ImageChannel env this (JStr u) ps s)) =
                  [NativeNew (JStr u) ps (Inr (next_id s)),
                   NativeClose (next_id s) JUndefined JUndefined,
                   WeakMapSet this (Bag (empty_bag (JStr u) ps)),
                   ImageSrc (Suc (next_id s)) (probe_url env encoded)]
              \<and> images (fst (WebSocket_A ImageChannel env this (JStr u) ps s)) (Suc (next_id s)) =
                  Some \<lparr>onload = Some (this, False), onerror = Some (this, True),
                        src = Some (probe_url env encoded)\<rparr>
              \<and> snd (WebSocket_B env this (JStr u) ps s) = None
              \<and> new_effects s (fst (WebSocket_B env this (JStr u) ps s)) =
                  [NativeNew (JStr u) ps (Inr (next_id s)),
                   NativeClose (next_id s) JUndefined JUndefined,
                   WeakMapSet this (Bag (empty_bag (JStr u) ps)),
                   ImageSrc (Suc (next_id s)) (probe_url env encoded)]
              \<and> images (fst (WebSocket_B env this (JStr u) ps s)) (Suc (next_id s)) =
                  Some \<lparr>onload = Some (this, True), onerror = Some (this, False),
                        src = Some (probe_url env encoded)\<rparr>))
       \<and> (\<forall>ex. Wrapped env (JStr u) ps = Some ex \<longrightarrow>
            WebSocket_A ch env this (JStr u) ps s = (emit [NativeNew (JStr u) ps (Inl ex)] s, Some ex)
          \<and> WebSocket_B env this (JStr u) ps s = (emit [NativeNew (JStr u) ps (Inl ex)] s, Some ex))"
proof (intro conjI impI allI)
  fix ex assume "Wrapped env (JStr u) ps = Some ex"
  then have bad: "precheck env (JStr u) ps s = (emit [NativeNew (JStr u) ps (Inl ex)] s, Some ex)"
    using assms by (simp add: precheck_def lastIndexOf_ws_def)
  show "WebSocket_A ch env this (JStr u) ps s = (emit [NativeNew (JStr u) ps (Inl ex)] s, Some ex)"
    by (simp add: WebSocket_A_def bad)
  show "WebSocket_B env this (JStr u) ps s = (emit [NativeNew (JStr u) ps (Inl ex)] s, Some ex)"
    by (simp add: WebSocket_B_def bad)
next
  assume w: "Wrapped env (JStr u) ps = None"
  have ok: "precheck env (JStr u) ps s =
      (emit [NativeNew (JStr u) ps (Inr (next_id s)), NativeClose (next_id s) JUndefined JUndefined]
         (s\<lparr>next_id := Suc (next_id s), socket_url := (socket_url s)(next_id s \<mapsto> JStr u)\<rparr>), None)"
    using assms w by (simp add: precheck_def lastIndexOf_ws_def new_socket_def emit_def)
  show "snd (WebSocket_A MessageChannel env this (JStr u) ps s) = None"
    by (simp add: WebSocket_A_def ok messageChannel_sendMessage_def Let_def)
  show "new_effects s (fst (WebSocket_A MessageChannel env this (JStr u) ps s)) =
                [NativeNew (JStr u) ps (Inr (next_id s)),
                 NativeClose (next_id s) JUndefined JUndefined,
                 WeakMapSet this (Bag (empty_bag (JStr u) ps))]
                @ (if currentRequestId s = 0 then [WindowAddEventListener] else [])
                @ [PostMessage (Suc (currentRequestId s)) DIRECTION_IN (JStr u) (document_URL env)]"
    by (simp add: WebSocket_A_def ok messageChannel_sendMessage_def Let_def new_effects_def
          set_entry_def)
  show "requestsMap (fst (WebSocket_A MessageChannel env this (JStr u) ps s))
                (int (Suc (currentRequestId s))) = Some this"
    by (simp add: WebSocket_A_def ok messageChannel_sendMessage_def Let_def set_entry_def)
  fix encoded assume e: "encodeURIComponent env (JStr u) = Inr encoded"
  show "snd (WebSocket_A ImageChannel env this (JStr u) ps s) = None"
    by (simp add: WebSocket_A_def ok imageChannel_sendMessage_def Let_def e)
  show "new_effects s (fst (WebSocket_A ImageChannel env this (JStr u) ps s)) =
                  [NativeNew (JStr u) ps (Inr (next_id s)),
                   NativeClose (next_id s) JUndefined JUndefined,
                   WeakMapSet this (Bag (empty_bag (JStr u) ps)),
                   ImageSrc (Suc (next_id s)) (probe_url env encoded)]"
    by (simp add: WebSocket_A_def ok imageChannel_sendMessage_def Let_def e new_effects_def
          set_entry_def set_src_def)
  show "images (fst (WebSocket_A ImageChannel env this (JStr u) ps s)) (Suc (next_id s)) =
                  Some \<lparr>onload = Some (this, False), onerror = Some (this, True),
                        src = Some (probe_url env encoded)\<rparr>"
    by (simp add: WebSocket_A_def ok imageChannel_sendMessage_def Let_def e set_entry_def
          set_src_def)
  show "snd (WebSocket_B env this (JStr u) ps s) = None"
    by (simp add: WebSocket_B_def ok Let_def e)
  show "new_effects s (fst (WebSocket_B env this (JStr u) ps s)) =
                  [NativeNew (JStr u) ps (Inr (next_id s)),
                   NativeClose (next_id s) JUndefined JUndefined,
                   WeakMapSet this (Bag (empty_bag (JStr u) ps)),
                   ImageSrc (Suc (next_id s)) (probe_url env encoded)]"
    by (simp add: WebSocket_B_def ok Let_def e new_effects_def set_entry_def set_src_def)
  show "images (fst (WebSocket_B env this (JStr u) ps s)) (Suc (next_id s)) =
                  Some \<lparr>onload = Some (this, True), onerror = Some (this, False),
                        src = Some (probe_url env encoded)\<rparr>"
    by (simp add: WebSocket_B_def ok Let_def e set_entry_def set_src_def)
qed

theorem insecure_precheck_witness:
  "location_protocol (example_page ''https:'' ws_ctor) = ''https:''
   \<and> take 3 ''ws://insecure.example/x'' = ''ws:''
   \<and> Wrapped (example_page ''https:'' ws_ctor) (JStr ''ws://insecure.example/x'') NoProtocols = None
   \<and> new_effects init
         (fst (WebSocket_A MessageChannel (example_page ''https:'' ws_ctor) 0
                 (JStr ''ws://insecure.example/x'') NoProtocols init)) =
         [NativeNew (JStr ''ws://insecure.example/x'') NoProtocols (Inr 0),
          NativeClose 0 JUndefined JUndefined,
          WeakMapSet 0 (Bag (empty_bag (JStr ''ws://insecure.example/x'') NoProtocols)),
          WindowAddEventListener,
          PostMessage 1 ''from-page-script@websocket-blocker'' (JStr ''ws://insecure.example/x'')
            ''https://example.com/'']
   \<and> new_effects init
         (fst (WebSocket_A ImageChannel (example_page ''https:'' ws_ctor) 0
                 (JStr ''ws://insecure.example/x'') NoProtocols init)) =
         [NativeNew (JStr ''ws://insecure.example/x'') NoProtocols (Inr 0),
          NativeClose 0 JUndefined JUndefined,
          WeakMapSet 0 (Bag (empty_bag (JStr ''ws://insecure.example/x'') NoProtocols)),
          ImageSrc 1 ''https://example.com?url=ws%3A%2F%2Finsecure.example%2Fx&ubofix=f41665f3028c7fd10eecf573336216d3'']
   \<and> new_effects init
         (fst (WebSocket_B (example_page ''https:'' ws_ctor) 0
                 (JStr ''ws://insecure.example/x'') NoProtocols init)) =
         [NativeNew (JStr ''ws://insecure.example/x'') NoProtocols (Inr 0),
          NativeClose 0 JUndefined JUndefined,
          WeakMapSet 0 (Bag (empty_bag (JStr ''ws://insecure.example/x'') NoProtocols)),
          ImageSrc 1 ''https://example.com?url=ws%3A%2F%2Finsecure.example%2Fx&ubofix=f41665f3028c7fd10eecf573336216d3'']"
proof -
  let ?env = "example_page ''https:'' ws_ctor"
  have p: "location_protocol ?env = ''https:''"
    by (simp add: example_page_def)
  have u: "take 3 ''ws://insecure.example/x'' = ''ws:''" by simp
  have c: "Wrapped ?env (JStr ''ws://insecure.example/x'') NoProtocols = None"
    by (simp add: example_page_def)
  have e: "encodeURIComponent ?env (JStr ''ws://insecure.example/x'')
             = Inr ''ws%3A%2F%2Finsecure.example%2Fx''"
    by (simp add: example_page_def percent_encode_def utf8_def unreserved_def hex_digit_def percent_byte_def
          letter_def lower_letter_def digit_def)
  have n: "next_id init = 0" "currentRequestId init = 0" by (simp_all add: init_def)
  have d: "document_URL ?env = ''https://example.com/''"
          "probe_url ?env ''ws%3A%2F%2Finsecure.example%2Fx''
             = ''https://example.com?url=ws%3A%2F%2Finsecure.example%2Fx&ubofix=f41665f3028c7fd10eecf573336216d3''"
    by (simp_all add: example_page_def probe_url_def ubofix_def)
  from insecure_precheck [OF p u, of NoProtocols 0 init ImageChannel] c e
  show ?thesis
    by (simp add: p n d DIRECTION_IN_def)
qed

text \<open>
  Claim C7 fails as it is stated. On an \<open>https:\<close> page whose browser refuses an insecure
  socket, the constructor for \<open>ws://insecure.example/x\<close> throws the \<open>SecurityError\<close> of
  the native constructor: no socket is opened or closed and no request is dispatched.
\<close>

theorem insecure_precheck_counterexample:
  "WebSocket_A ImageChannel (example_page ''https:'' mixed_content_ctor) 0
       (JStr ''ws://insecure.example/x'') NoProtocols init
     = (init\<lparr>effects := [NativeNew (JStr ''ws://insecure.example/x'') NoProtocols (Inl SecurityError)]\<rparr>,
        Some SecurityError)
   \<and> WebSocket_B (example_page ''https:'' mixed_content_ctor) 0
       (JStr ''ws://insecure.example/x'') NoProtocols init
     = (init\<lparr>effects := [NativeNew (JStr ''ws://insecure.example/x'') NoProtocols (Inl SecurityError)]\<rparr>,
        Some SecurityError)"
  by (simp add: WebSocket_A_def WebSocket_B_def precheck_def lastIndexOf_ws_def example_page_def
        emit_def init_def)

subsection \<open>The address of the probe request\<close>









text \<open>An apostrophe in a query, as the parser writes it.\<close>

lemma parse_url_apostrophe:
  "parse_url (''http://example.com?url=it'' @ [CHR 0x27] @ ''s'') = Some ''http://example.com/?url=it%27s''"
  by code_simp



subsection \<open>The \<open>url\<close> accessor\<close>

text \<open>A constructor that returns leaves the wrapper with a bag that holds its arguments.\<close>

lemma WebSocket_A_pending:
  assumes "snd (WebSocket_A ch env this url ps s) = None"
  shows "pending_args (fst (WebSocket_A ch env this url ps s)) this = Some (url, ps)"
proof (cases "snd (precheck env url ps s) = None")
  case True
  then show ?thesis
    by (simp add: WebSocket_A_eq pending_args_def empty_bag_def)
next
  case False
  with assms show ?thesis by (simp add: WebSocket_A_eq)
qed

lemma WebSocket_B_pending:
  assumes "snd (WebSocket_B env this url ps s) = None"
  shows "pending_args (fst (WebSocket_B env this url ps s)) this = Some (url, ps)"
proof (cases "snd (precheck env url ps s) = None")
  case True
  then show ?thesis
    by (simp add: WebSocket_B_fields pending_args_def empty_bag_def)
next
  case False
  with assms show ?thesis by (simp add: WebSocket_B_eq)
qed

text \<open>An allowed response for a wrapper that holds a bag, when the native constructor
  returns: the accessor then reads the \<open>url\<close> of a socket constructed with the address
  of the bag.\<close>

lemma allow_reads_url_A:
  assumes "pending_args s w = Some (u, ps)" and "Wrapped env u ps = None"
  shows "WebSocket_get env w ''url'' (fst (channelResponseReceived env w (JBool False) s))
           = Some (native_url env u)
       \<and> new_effects s (fst (channelResponseReceived env w (JBool False) s)) \<noteq> []
       \<and> hd (new_effects s (fst (channelResponseReceived env w (JBool False) s)))
           = NativeNew u ps (Inr (next_id s))"
  using assms
  by (auto simp: pending_args_def WebSocket_get_def accessor_default_def getWrappedProperty_def
        native_read_def channelResponseReceived_def new_socket_def new_effects_def replay_effects
      split: option.splits entry.splits)

lemma allow_reads_url_B:
  assumes "pending_args s w = Some (u, ps)" and "Wrapped env u ps = None"
  shows "WebSocket_get env w ''url'' (fst (onResponseReceived env img w True s))
           = Some (native_url env u)
       \<and> new_effects s (fst (onResponseReceived env img w True s)) \<noteq> []
       \<and> hd (new_effects s (fst (onResponseReceived env img w True s)))
           = NativeNew u ps (Inr (next_id s))"
  using assms
  by (auto simp: pending_args_def WebSocket_get_def accessor_default_def getWrappedProperty_def
        native_read_def onResponseReceived_def Let_def new_socket_def new_effects_def replay_effects
      split: option.splits entry.splits)

text \<open>
  Claim C9. In every state that the page and the browser can reach from the start,
  through either implementation, a wrapper whose side table entry is not a native
  socket (pending, blocked, or left behind by a failed construction) reads \<open>url\<close> as the
  empty string, whatever address its constructor was given: no step writes \<open>url\<close> into
  a bag. When a constructor has returned for the address \<open>url\<close>, the page has made any
  calls, the response allows the connection and the native constructor returns, the
  handler constructs a native socket with the address \<open>url\<close> and the accessor then
  reads the \<open>url\<close> of that socket: what a native socket constructed with the address
  \<open>url\<close> reports.
\<close>

theorem url_default_until_allowed:
  "(\<not> has_socket (run env acts init) w \<longrightarrow>
      WebSocket_get env w ''url'' (run env acts init) = Some (JStr ''''))
   \<and> (snd (WebSocket_A ch env this url ps s) = None \<and> list_all is_call calls
        \<and> Wrapped env url ps = None
        \<and> t = run env calls (fst (WebSocket_A ch env this url ps s)) \<longrightarrow>
        WebSocket_get env this ''url'' (fst (channelResponseReceived env this (JBool False) t))
          = Some (native_url env url)
      \<and> hd (new_effects t (fst (channelResponseReceived env this (JBool False) t)))
          = NativeNew url ps (Inr (next_id t)))
   \<and> (snd (WebSocket_B env this url ps s) = None \<and> list_all is_call calls
        \<and> Wrapped env url ps = None
        \<and> t' = run env calls (fst (WebSocket_B env this url ps s)) \<longrightarrow>
        WebSocket_get env this ''url'' (fst (onResponseReceived env img this True t'))
          = Some (native_url env url)
      \<and> hd (new_effects t' (fst (onResponseReceived env img this True t')))
          = NativeNew url ps (Inr (next_id t')))"
proof (intro conjI impI)
  assume "\<not> has_socket (run env acts init) w"
  moreover have "url_unwritten (run env acts init)"
    by (rule url_unwritten_run [OF url_unwritten_init])
  ultimately show "WebSocket_get env w ''url'' (run env acts init) = Some (JStr '''')"
    by (auto simp: has_socket_def WebSocket_get_def accessor_default_def getWrappedProperty_def
          url_unwritten_def split: option.splits entry.splits)
next
  assume a: "snd (WebSocket_A ch env this url ps s) = None \<and> list_all is_call calls
        \<and> Wrapped env url ps = None
        \<and> t = run env calls (fst (WebSocket_A ch env this url ps s))"
  then have p: "pending_args t this = Some (url, ps)"
    by (simp add: calls_pending_args WebSocket_A_pending)
  from a have w: "Wrapped env url ps = None" by simp
  show "WebSocket_get env this ''url'' (fst (channelResponseReceived env this (JBool False) t))
          = Some (native_url env url)"
    using allow_reads_url_A [OF p w] by simp
  show "hd (new_effects t (fst (channelResponseReceived env this (JBool False) t)))
          = NativeNew url ps (Inr (next_id t))"
    using allow_reads_url_A [OF p w] by simp
next
  assume a: "snd (WebSocket_B env this url ps s) = None \<and> list_all is_call calls
        \<and> Wrapped env url ps = None
        \<and> t' = run env calls (fst (WebSocket_B env this url ps s))"
  then have p: "pending_args t' this = Some (url, ps)"
    by (simp add: calls_pending_args WebSocket_B_pending)
  from a have w: "Wrapped env url ps = None" by simp
  show "WebSocket_get env this ''url'' (fst (onResponseReceived env img this True t'))
          = Some (native_url env url)"
    using allow_reads_url_B [OF p w] by simp
  show "hd (new_effects t' (fst (onResponseReceived env img this True t')))
          = NativeNew url ps (Inr (next_id t'))"
    using allow_reads_url_B [OF p w] by simp
qed

theorem url_default_until_allowed_witness:
  "\<not> has_socket example_pending 0
   \<and> WebSocket_get (example_page ''http:'' ws_ctor) 0 ''url'' example_pending = Some (JStr '''')
   \<and> WebSocket_get (example_page ''http:'' ws_ctor) 0 ''url''
       (fst (channelResponseReceived (example_page ''http:'' ws_ctor) 0 (JBool False) example_pending))
       = Some (JStr ''ws://example.com/socket'')
   \<and> hd (new_effects example_pending
       (fst (channelResponseReceived (example_page ''http:'' ws_ctor) 0 (JBool False) example_pending)))
       = NativeNew (JStr ''ws://example.com/socket'') NoProtocols (Inr 1)
   \<and> WebSocket_get (example_page ''http:'' ws_ctor) 0 ''url'' example_pending_B = Some (JStr '''')
   \<and> WebSocket_get (example_page ''http:'' ws_ctor) 0 ''url''
       (fst (onResponseReceived (example_page ''http:'' ws_ctor) 0 0 True example_pending_B))
       = Some (JStr ''ws://example.com/socket'')"
proof -
  let ?env = "example_page ''http:'' ws_ctor"
  let ?u = "JStr ''ws://example.com/socket''"
  let ?calls = "[SetProperty 0 ''onopen'' (JFun 1 None),
          SetProperty 0 ''binaryType'' (JStr ''arraybuffer''),
          AddEventListener 0 (JStr ''message'') (JFun 2 None) (JBool False),
          SetProperty 0 ''onopen'' (JFun 3 None)]"
  have h: "\<not> has_socket example_pending 0"
    by (simp add: has_socket_def example_pending_entry)
  have r: "snd (WebSocket_A ImageChannel ?env 0 ?u NoProtocols init) = None"
    by (simp add: model_defs)
  have c: "list_all is_call ?calls" by simp
  have ctor: "Wrapped ?env ?u NoProtocols = None"
    by (simp add: example_page_def)
  have t: "example_pending = run ?env ?calls (fst (WebSocket_A ImageChannel ?env 0 ?u NoProtocols init))"
    by (simp add: example_pending_def run_Cons)
  have n: "native_url ?env ?u = ?u"
    by (simp add: example_page_def)
  have hB: "\<not> has_socket example_pending_B 0"
    by (simp add: has_socket_def example_pending_B_def model_defs)
  have rB: "snd (WebSocket_B ?env 0 ?u NoProtocols init) = None"
    by (simp add: model_defs)
  have cB: "list_all is_call [SetProperty 0 ''onerror'' (JFun 1 None)]" by simp
  have tB: "example_pending_B =
      run ?env [SetProperty 0 ''onerror'' (JFun 1 None)] (fst (WebSocket_B ?env 0 ?u NoProtocols init))"
    by (simp add: example_pending_B_def run_Cons)
  from url_default_until_allowed [of ?env
        "New_A ImageChannel 0 ?u NoProtocols # ?calls" 0 ImageChannel 0 ?u NoProtocols init ?calls
        example_pending example_pending 0,
        folded example_pending_def]
      url_default_until_allowed [of ?env
        "[New_B 0 ?u NoProtocols, SetProperty 0 ''onerror'' (JFun 1 None)]" 0 ImageChannel 0 ?u
        NoProtocols init "[SetProperty 0 ''onerror'' (JFun 1 None)]"
        example_pending_B example_pending_B 0,
        folded example_pending_B_def]
      h r c ctor t hB rB cB tB
  show ?thesis by (simp add: n example_pending_next_id)
qed

subsection \<open>\<open>addEventListener\<close> with a callback that is not a function\<close>

text \<open>
  Claim C10. \<open>addEventListener\<close> (the same code in both implementations) with a callback
  that is not a function returns the state it was given, whatever the side table holds
  for the wrapper: nothing is pushed into a bag and nothing reaches a native socket.
\<close>

theorem addEventListener_not_function:
  "\<not> instanceof_Function c \<Longrightarrow> addEventListener this e c f s = s"
  by (simp add: addEventListener_def)

theorem addEventListener_not_function_witness:
  "\<not> instanceof_Function (JStr ''handler'')
   \<and> addEventListener 0 (JStr ''message'') (JStr ''handler'') (JBool False) example_pending
       = example_pending"
  using addEventListener_not_function
    [of "JStr ''handler''" 0 "JStr ''message''" "JBool False" example_pending]
  by simp

end
